theory Spec2Isabelle
  imports Main
begin

section \<open>Python values and strings\<close>

text \<open>
  The scripts \<^verbatim>\<open>fetch_tasks.py\<close> and \<^verbatim>\<open>create_tasks.py\<close> work on values decoded from
  JSON and on the strings of the command line. A Python value is modelled by its runtime
  shape. Two shapes are kept abstract, by exactly what the code observes of them:
  a float is either integral (\<^verbatim>\<open>is_integer()\<close> holds and \<^verbatim>\<open>int(value)\<close> is the given
  integer) or not integral (then only \<^verbatim>\<open>str(value)\<close> is taken, and it is the given text,
  \<^verbatim>\<open>inf\<close> and \<^verbatim>\<open>nan\<close> included); a bytes object either decodes as UTF-8 to the
  given text or does not decode at all. A value of any other class is given by its
  \<^verbatim>\<open>str()\<close>. Dictionaries have string keys and keep their items as an association list.
\<close>

datatype error =
    UnicodeDecodeError
  | OverflowError
  | ValueError
  | KeyError string
  | AttributeError
  | RuntimeError string
  | RecursionError
  | URLError
  | JSONDecodeError
  | KeyboardInterrupt

text \<open>
  What the handlers of the code catch: \<^verbatim>\<open>except RuntimeError\<close> catches a
  \<^verbatim>\<open>RuntimeError\<close> and a \<^verbatim>\<open>RecursionError\<close>, which is a subclass of it, and nothing
  else listed here; \<^verbatim>\<open>except Exception\<close> catches every exception listed here but
  \<^verbatim>\<open>KeyboardInterrupt\<close>, which derives from \<^verbatim>\<open>BaseException\<close> directly.
\<close>

fun is_RuntimeError :: "error \<Rightarrow> bool" where
  "is_RuntimeError (RuntimeError _) = True"
| "is_RuntimeError RecursionError = True"
| "is_RuntimeError _ = False"

fun is_Exception :: "error \<Rightarrow> bool" where
  "is_Exception KeyboardInterrupt = False"
| "is_Exception _ = True"

text \<open>\<^verbatim>\<open>str(exc)\<close> of a caught \<^verbatim>\<open>RuntimeError\<close> is its message.\<close>

fun str_exc :: "error \<Rightarrow> string" where
  "str_exc (RuntimeError m) = m"
| "str_exc RecursionError = ''maximum recursion depth exceeded''"
| "str_exc (KeyError k) = k"
| "str_exc _ = []"

datatype pyfloat = FloatIntegral int | FloatOther string

datatype pybytes = Utf8 string | NotUtf8

datatype pyval =
    PNone
  | PStr string
  | PBytes pybytes
  | PInt int
  | PFloat pyfloat
  | PBool bool
  | PList "pyval list"
  | PDict "(string \<times> pyval) list"
  | POther string

text \<open>
  \<^verbatim>\<open>str.strip()\<close> removes the leading and trailing white space. A \<^typ>\<open>char\<close> is read as
  a code point below 256; the white space of \<^verbatim>\<open>str.isspace\<close> in that range is listed.
\<close>

definition py_isspace :: "char \<Rightarrow> bool" where
  "py_isspace c = (of_char c \<in> {9, 10, 11, 12, 13, 28, 29, 30, 31, 32, 133, 160 :: nat})"

definition strip :: "string \<Rightarrow> string" where
  "strip s = rev (dropWhile py_isspace (rev (dropWhile py_isspace s)))"

text \<open>\<^verbatim>\<open>str(n)\<close> of an integer: its decimal digits, with a minus sign below zero.\<close>

definition digit_char :: "nat \<Rightarrow> char" where
  "digit_char n = ''0123456789'' ! n"

fun str_nat :: "nat \<Rightarrow> string" where
  "str_nat n = (if n < 10 then [digit_char n] else str_nat (n div 10) @ [digit_char (n mod 10)])"

declare str_nat.simps [simp del]

definition str_int :: "int \<Rightarrow> string" where
  "str_int i = (if i < 0 then CHR ''-'' # str_nat (nat (- i)) else str_nat (nat i))"

text \<open>
  \<^verbatim>\<open>isinstance\<close>: in Python \<^verbatim>\<open>bool\<close> is a subclass of \<^verbatim>\<open>int\<close>, so a boolean is an
  instance of both.
\<close>

fun isinstance_str :: "pyval \<Rightarrow> bool" where
  "isinstance_str (PStr _) = True"
| "isinstance_str _ = False"

fun isinstance_bytes :: "pyval \<Rightarrow> bool" where
  "isinstance_bytes (PBytes _) = True"
| "isinstance_bytes _ = False"

fun isinstance_int :: "pyval \<Rightarrow> bool" where
  "isinstance_int (PInt _) = True"
| "isinstance_int (PBool _) = True"
| "isinstance_int _ = False"

fun isinstance_float :: "pyval \<Rightarrow> bool" where
  "isinstance_float (PFloat _) = True"
| "isinstance_float _ = False"

fun isinstance_bool :: "pyval \<Rightarrow> bool" where
  "isinstance_bool (PBool _) = True"
| "isinstance_bool _ = False"

text \<open>
  \<^verbatim>\<open>str(value)\<close>, for the shapes on which the code takes it: strings, integers, booleans
  (\<^verbatim>\<open>str(True)\<close> is \<^verbatim>\<open>True\<close>), floats that are not integral, and values of other classes.
  The code never takes \<^verbatim>\<open>str\<close> of bytes, lists, dictionaries or integral floats; the last
  equation only makes the function total.
\<close>

fun py_str :: "pyval \<Rightarrow> string" where
  "py_str PNone = ''None''"
| "py_str (PStr s) = s"
| "py_str (PInt i) = str_int i"
| "py_str (PBool b) = (if b then ''True'' else ''False'')"
| "py_str (PFloat (FloatOther s)) = s"
| "py_str (POther s) = s"
| "py_str _ = []"

text \<open>
  Two limits of the interpreter are part of the model, since the normalizer can run into
  both. \<open>frames\<close> is the number of function calls that may still be nested below the call
  at hand before the interpreter raises \<^verbatim>\<open>RecursionError\<close>
  (\<^verbatim>\<open>sys.getrecursionlimit()\<close> less the depth the stack has reached): a call of a Python
  function made when it is 0 raises, and the function called runs with one frame less. A
  list comprehension runs in a frame of its own in CPython up to 3.11 and inline from 3.12
  on; \<open>comprehension_frame\<close> says which. Calls of built-in functions and methods
  (\<^verbatim>\<open>isinstance\<close>, \<^verbatim>\<open>str\<close>, \<^verbatim>\<open>strip\<close>, \<^verbatim>\<open>get\<close>, \<^verbatim>\<open>decode\<close>) take no frame.
  \<open>int_max_str_digits\<close> is \<^verbatim>\<open>sys.get_int_max_str_digits()\<close>, 4300 unless it is set
  otherwise: \<^verbatim>\<open>str\<close> of an integer with more decimal digits raises \<^verbatim>\<open>ValueError\<close>; the
  value 0 lifts the limit (as do the interpreters before the limit was introduced).
\<close>

record interpreter =
  frames :: nat
  comprehension_frame :: bool
  int_max_str_digits :: nat

text \<open>The interpreter as a function called \<open>k\<close> frames further down finds it.\<close>

definition below :: "interpreter \<Rightarrow> nat \<Rightarrow> interpreter" where
  "below ip k = ip\<lparr>frames := frames ip - k\<rparr>"

definition comprehension_depth :: "interpreter \<Rightarrow> nat" where
  "comprehension_depth ip = (if comprehension_frame ip then 1 else 0)"

text \<open>
  \<^verbatim>\<open>str(value)\<close> where \<^verbatim>\<open>value\<close> is an instance of \<^verbatim>\<open>int\<close>: an integer is subject to the
  limit on digits (the sign does not count), a boolean is not.
\<close>

definition str_of_int :: "interpreter \<Rightarrow> pyval \<Rightarrow> error + string" where
  "str_of_int ip value =
     (case value of
        PInt i \<Rightarrow>
          if int_max_str_digits ip \<noteq> 0 \<and> int_max_str_digits ip < length (str_nat (nat \<bar>i\<bar>))
          then Inl ValueError
          else Inr (str_int i)
      | _ \<Rightarrow> Inr (py_str value))"

text \<open>Truthiness, as \<^verbatim>\<open>if value\<close>, \<^verbatim>\<open>value or default\<close> and \<^verbatim>\<open>bool(value)\<close> read it.\<close>

fun py_bool :: "pyval \<Rightarrow> bool" where
  "py_bool PNone = False"
| "py_bool (PStr s) = (s \<noteq> [])"
| "py_bool (PBytes b) = (b \<noteq> Utf8 [])"
| "py_bool (PInt i) = (i \<noteq> 0)"
| "py_bool (PFloat f) = (f \<noteq> FloatIntegral 0)"
| "py_bool (PBool b) = b"
| "py_bool (PList items) = (items \<noteq> [])"
| "py_bool (PDict obj) = (obj \<noteq> [])"
| "py_bool (POther s) = True"

text \<open>\<^verbatim>\<open>obj.get(key)\<close> (the default is \<^verbatim>\<open>None\<close>) and \<^verbatim>\<open>key in obj\<close>.\<close>

definition dict_get :: "(string \<times> pyval) list \<Rightarrow> string \<Rightarrow> pyval" where
  "dict_get obj key = (case map_of obj key of None \<Rightarrow> PNone | Some v \<Rightarrow> v)"

definition has_key :: "(string \<times> pyval) list \<Rightarrow> string \<Rightarrow> bool" where
  "has_key obj key = (key \<in> fst ` set obj)"

text \<open>
  Evaluation in order with exceptions: \<open>sequence\<close> is a list display or comprehension whose
  elements may raise (the first exception wins); \<open>first_text\<close> is a loop that returns the
  first non-empty text, and the empty text when it runs to its end.
\<close>

fun sequence :: "(error + 'a) list \<Rightarrow> error + 'a list" where
  "sequence [] = Inr []"
| "sequence (Inl e # rs) = Inl e"
| "sequence (Inr x # rs) = (case sequence rs of Inl e \<Rightarrow> Inl e | Inr xs \<Rightarrow> Inr (x # xs))"

fun first_text :: "(error + string) list \<Rightarrow> error + string" where
  "first_text [] = Inr []"
| "first_text (Inl e # rs) = Inl e"
| "first_text (Inr t # rs) = (if t \<noteq> [] then Inr t else first_text rs)"

text \<open>\<^verbatim>\<open>sep.join(parts)\<close>.\<close>

fun join :: "string \<Rightarrow> string list \<Rightarrow> string" where
  "join sep [] = []"
| "join sep [p] = p"
| "join sep (p # ps) = p @ sep @ join sep ps"

definition non_empty :: "string list \<Rightarrow> string list" where
  "non_empty parts = filter (\<lambda>p. p \<noteq> []) parts"


section \<open>The value normalizer (\<^verbatim>\<open>fetch_tasks.py\<close>)\<close>

text \<open>
  \<^verbatim>\<open>json.dumps(obj, ensure_ascii=False)\<close> is a parameter \<open>d\<close> of the normalizer: it gives
  the text, or \<open>None\<close> when it raises (the code catches that and returns the empty text).
\<close>

type_synonym dumps = "(string \<times> pyval) list \<Rightarrow> string option"

fun is_rich_text_array :: "pyval list \<Rightarrow> bool" where
  "is_rich_text_array [] = False"
| "is_rich_text_array (PDict obj # items) =
     (if has_key obj ''text'' then True else is_rich_text_array items)"
| "is_rich_text_array (_ # items) = is_rich_text_array items"

text \<open>
  The four functions of the normalizer call one another; the interpreter \<open>ip\<close> that each
  takes tells how many frames are left below its own. Every call among them is guarded:
  with no frame left it raises \<^verbatim>\<open>RecursionError\<close>, and nothing in the normalizer catches
  that. In \<^verbatim>\<open>normalize_bitable_array\<close> the first call is that of \<^verbatim>\<open>is_rich_text_array\<close>,
  which calls built-in functions only, and the calls of the comprehension are made one frame
  further down where the comprehension has a frame. In \<^verbatim>\<open>normalize_bitable_object\<close> the
  generator of \<^verbatim>\<open>any\<close> takes a frame too, but it is reached only after the calls of the loop
  before it have returned, so a frame is left for it. The integer of an integral float has
  at most 309 digits, below every limit on digits that can be set.
\<close>

function normalize_bitable_value :: "interpreter \<Rightarrow> dumps \<Rightarrow> pyval \<Rightarrow> error + string"
  and normalize_bitable_array :: "interpreter \<Rightarrow> dumps \<Rightarrow> pyval list \<Rightarrow> error + string"
  and normalize_bitable_object :: "interpreter \<Rightarrow> dumps \<Rightarrow> (string \<times> pyval) list \<Rightarrow> error + string"
  and join_rich_text :: "interpreter \<Rightarrow> dumps \<Rightarrow> pyval list \<Rightarrow> error + string"
where
  "normalize_bitable_value ip d value =
     (if value = PNone then Inr []
      else if isinstance_str value then Inr (strip (py_str value))
      else if isinstance_bytes value then
        (case value of PBytes (Utf8 s) \<Rightarrow> Inr (strip s) | _ \<Rightarrow> Inl UnicodeDecodeError)
      else if isinstance_int value then str_of_int ip value
      else if isinstance_float value then
        (case value of PFloat (FloatIntegral i) \<Rightarrow> Inr (str_int i) | _ \<Rightarrow> Inr (py_str value))
      else if isinstance_bool value then Inr (if py_bool value then ''true'' else ''false'')
      else (case value of
              PList items \<Rightarrow>
                if frames ip = 0 then Inl RecursionError
                else normalize_bitable_array (below ip 1) d items
            | PDict obj \<Rightarrow>
                if frames ip = 0 then Inl RecursionError
                else normalize_bitable_object (below ip 1) d obj
            | _ \<Rightarrow> Inr (strip (py_str value))))"
| "normalize_bitable_array ip d items =
     (if items = [] then Inr []
      else if frames ip = 0 then Inl RecursionError
      else if is_rich_text_array items then join_rich_text (below ip 1) d items
      else if frames ip \<le> comprehension_depth ip then Inl RecursionError
      else (case sequence (map (normalize_bitable_value
                                  (below ip (comprehension_depth ip + 1)) d) items) of
              Inl e \<Rightarrow> Inl e
            | Inr parts \<Rightarrow> Inr (join '','' (non_empty parts))))"
| "normalize_bitable_object ip d obj =
     (if obj = [] then Inr []
      else (case first_text (map (\<lambda>key. if has_key obj key
                                          then if frames ip = 0 then Inl RecursionError
                                               else normalize_bitable_value (below ip 1) d
                                                      (dict_get obj key)
                                          else Inr [])
                               [''value'', ''values'', ''elements'', ''content'']) of
        Inl e \<Rightarrow> Inl e
      | Inr text \<Rightarrow>
          if text \<noteq> [] then Inr text
          else if isinstance_str (dict_get obj ''text'')
                  \<and> strip (py_str (dict_get obj ''text'')) \<noteq> []
            then Inr (strip (py_str (dict_get obj ''text'')))
          else (case first_text (map (\<lambda>key. if frames ip = 0 then Inl RecursionError
                                              else normalize_bitable_value (below ip 1) d
                                                     (dict_get obj key))
                  [''link'', ''name'', ''en_name'', ''email'', ''id'', ''user_id'', ''url'',
                   ''tmp_url'', ''file_token'']) of
            Inl e \<Rightarrow> Inl e
          | Inr val \<Rightarrow>
              if val \<noteq> [] then Inr val
              else (case (if list_ex (has_key obj)
                               [''address'', ''location'', ''pname'', ''cityname'', ''adname'']
                          then sequence (map (\<lambda>key. if frames ip = 0 then Inl RecursionError
                                                      else normalize_bitable_value (below ip 1) d
                                                             (dict_get obj key))
                                  [''location'', ''pname'', ''cityname'', ''adname''])
                          else Inr []) of
                Inl e \<Rightarrow> Inl e
              | Inr parts \<Rightarrow>
                  if non_empty parts \<noteq> [] then Inr (join '','' (non_empty parts))
                  else (case d obj of Some s \<Rightarrow> Inr s | None \<Rightarrow> Inr [])))))"
| "join_rich_text ip d items =
     (case sequence (map (\<lambda>item. case item of
               PDict obj \<Rightarrow>
                 (if isinstance_str (dict_get obj ''text'')
                     \<and> strip (py_str (dict_get obj ''text'')) \<noteq> []
                  then Inr (strip (py_str (dict_get obj ''text'')))
                  else if frames ip = 0 then Inl RecursionError
                  else normalize_bitable_value (below ip 1) d (dict_get obj ''value''))
             | _ \<Rightarrow>
                 if frames ip = 0 then Inl RecursionError
                 else normalize_bitable_value (below ip 1) d item) items) of
        Inl e \<Rightarrow> Inl e
      | Inr parts \<Rightarrow> Inr (join '' '' (non_empty parts)))"
  by pat_completeness auto
termination
  by (relation "measure (case_sum
          (case_sum (\<lambda>(ip, d, v). frames ip) (\<lambda>(ip, d, items). frames ip))
          (case_sum (\<lambda>(ip, d, obj). frames ip) (\<lambda>(ip, d, items). frames ip)))")
     (auto simp: below_def)

declare normalize_bitable_value.simps [simp del]
declare normalize_bitable_array.simps [simp del]
declare normalize_bitable_object.simps [simp del]
declare join_rich_text.simps [simp del]


text \<open>A stand-in for a \<^verbatim>\<open>json.dumps\<close> that raises on every object, to evaluate examples.\<close>

definition dumps_raises :: dumps where
  "dumps_raises obj = None"

text \<open>
  An interpreter for examples: 990 frames left of the default recursion limit of 1000, a
  frame for each comprehension, the default limit on digits.
\<close>

definition default_interpreter :: interpreter where
  "default_interpreter = \<lparr>frames = 990, comprehension_frame = True, int_max_str_digits = 4300\<rparr>"

text \<open>
  Three measures of a value. It is decodable when no bytes object in it fails to decode as
  UTF-8. Its integers are within \<open>m\<close> digits when \<open>m\<close> is 0 (no limit) or no integer in it
  has more than \<open>m\<close> decimal digits. Its depth is the number of arrays and objects nested in
  one another, 0 for a scalar. \<open>nest k v\<close> is \<open>v\<close> within \<open>k\<close> arrays of one element.
\<close>

fun decodable :: "pyval \<Rightarrow> bool" where
  "decodable (PBytes b) = (b \<noteq> NotUtf8)"
| "decodable (PList items) = (\<forall>x \<in> set items. decodable x)"
| "decodable (PDict obj) = (\<forall>kv \<in> set obj. decodable (snd kv))"
| "decodable _ = True"

fun digits_within :: "nat \<Rightarrow> pyval \<Rightarrow> bool" where
  "digits_within m (PInt i) = (m = 0 \<or> length (str_nat (nat \<bar>i\<bar>)) \<le> m)"
| "digits_within m (PList items) = (\<forall>x \<in> set items. digits_within m x)"
| "digits_within m (PDict obj) = (\<forall>kv \<in> set obj. digits_within m (snd kv))"
| "digits_within m _ = True"

fun depth :: "pyval \<Rightarrow> nat" where
  "depth (PList items) = Suc (fold max (map depth items) 0)"
| "depth (PDict obj) = Suc (fold max (map (\<lambda>kv. depth (snd kv)) obj) 0)"
| "depth _ = 0"

fun nest :: "nat \<Rightarrow> pyval \<Rightarrow> pyval" where
  "nest 0 v = v"
| "nest (Suc k) v = PList [nest k v]"


section \<open>Field names and the search filter (\<^verbatim>\<open>fetch_tasks.py\<close>)\<close>

text \<open>
  \<^verbatim>\<open>TASK_FIELD_ENV_MAP\<close>, in its order, and \<^verbatim>\<open>load_task_fields_from_env\<close>: the identity
  mapping on the logical names (the dictionary \<^verbatim>\<open>fields\<close>, here \<open>fmap\<close>), where an environment variable that is not blank after
  stripping replaces the column name. The environment is a function from the name of a
  variable to its value, the empty string when it is not set.
\<close>

definition TASK_FIELD_ENV_MAP :: "(string \<times> string) list" where
  "TASK_FIELD_ENV_MAP =
    [(''TASK_FIELD_TASKID'', ''TaskID''),
     (''TASK_FIELD_BIZ_TASK_ID'', ''BizTaskID''),
     (''TASK_FIELD_PARENT_TASK_ID'', ''ParentTaskID''),
     (''TASK_FIELD_APP'', ''App''),
     (''TASK_FIELD_SCENE'', ''Scene''),
     (''TASK_FIELD_PARAMS'', ''Params''),
     (''TASK_FIELD_ITEMID'', ''ItemID''),
     (''TASK_FIELD_BOOKID'', ''BookID''),
     (''TASK_FIELD_URL'', ''URL''),
     (''TASK_FIELD_USERID'', ''UserID''),
     (''TASK_FIELD_USERNAME'', ''UserName''),
     (''TASK_FIELD_DATE'', ''Date''),
     (''TASK_FIELD_STATUS'', ''Status''),
     (''TASK_FIELD_LOGS'', ''Logs''),
     (''TASK_FIELD_LAST_SCREEN_SHOT'', ''LastScreenShot''),
     (''TASK_FIELD_GROUPID'', ''GroupID''),
     (''TASK_FIELD_DEVICE_SERIAL'', ''DeviceSerial''),
     (''TASK_FIELD_DISPATCHED_DEVICE'', ''DispatchedDevice''),
     (''TASK_FIELD_DISPATCHED_AT'', ''DispatchedAt''),
     (''TASK_FIELD_START_AT'', ''StartAt''),
     (''TASK_FIELD_END_AT'', ''EndAt''),
     (''TASK_FIELD_ELAPSED_SECONDS'', ''ElapsedSeconds''),
     (''TASK_FIELD_ITEMS_COLLECTED'', ''ItemsCollected''),
     (''TASK_FIELD_EXTRA'', ''Extra''),
     (''TASK_FIELD_RETRYCOUNT'', ''RetryCount'')]"

type_synonym field_map = "string \<rightharpoonup> string"

definition env :: "(string \<Rightarrow> string) \<Rightarrow> string \<Rightarrow> string" where
  "env getenv name = strip (getenv name)"

fun load_overrides :: "(string \<Rightarrow> string) \<Rightarrow> field_map \<Rightarrow> (string \<times> string) list \<Rightarrow> field_map" where
  "load_overrides getenv fmap [] = fmap"
| "load_overrides getenv fmap ((env_name, default_name) # rest) =
     load_overrides getenv
       (if env getenv env_name \<noteq> [] then fmap(default_name \<mapsto> env getenv env_name) else fmap)
       rest"

definition load_task_fields_from_env :: "(string \<Rightarrow> string) \<Rightarrow> field_map" where
  "load_task_fields_from_env getenv =
     load_overrides getenv (map_of (map (\<lambda>(_, v). (v, v)) TASK_FIELD_ENV_MAP)) TASK_FIELD_ENV_MAP"

text \<open>The environment in which no variable is set.\<close>

definition no_env :: "string \<Rightarrow> string" where
  "no_env name = []"

text \<open>
  \<^verbatim>\<open>build_filter\<close>. A condition is the dictionary with the keys \<^verbatim>\<open>field_name\<close>,
  \<^verbatim>\<open>operator\<close> and \<^verbatim>\<open>value\<close> (a list of one string); a filter has a conjunction and its
  conditions. The inner function \<^verbatim>\<open>add\<close> appends to \<^verbatim>\<open>conds\<close>; here it takes the list
  and returns it.
\<close>

record condition =
  field_name :: string
  operator :: string
  value_list :: "string list"

record filter_obj =
  conjunction :: string
  conditions :: "condition list"

definition add :: "field_map \<Rightarrow> condition list \<Rightarrow> string \<Rightarrow> string \<Rightarrow> condition list" where
  "add fmap conds field_key val =
     (let name = strip (case fmap field_key of None \<Rightarrow> [] | Some n \<Rightarrow> n);
          val = strip val
      in if name \<noteq> [] \<and> val \<noteq> []
         then conds @ [\<lparr>field_name = name, operator = ''is'', value_list = [val]\<rparr>]
         else conds)"

definition build_filter ::
  "field_map \<Rightarrow> string \<Rightarrow> string \<Rightarrow> string \<Rightarrow> string \<Rightarrow> filter_obj option" where
  "build_filter fmap app scene status date_preset =
     (let conds = add fmap [] ''App'' app;
          conds = add fmap conds ''Scene'' scene;
          conds = add fmap conds ''Status'' status;
          conds = (if date_preset \<noteq> [] \<and> date_preset \<noteq> ''Any''
                   then add fmap conds ''Date'' date_preset else conds)
      in if conds = [] then None
         else Some \<lparr>conjunction = ''and'', conditions = conds\<rparr>)"


section \<open>The paginated fetcher (\<^verbatim>\<open>fetch_tasks.py\<close>)\<close>

record BitableRef =
  raw_url :: string
  app_token :: string
  table_id :: string
  view_id :: string
  wiki_token :: string

record PageInfo =
  has_more :: bool
  next_page_token :: string
  pages :: int

definition DEFAULT_PAGE_SIZE :: int where
  "DEFAULT_PAGE_SIZE = 200"

definition MAX_PAGE_SIZE :: int where
  "MAX_PAGE_SIZE = 500"

definition clamp_page_size :: "int \<Rightarrow> int" where
  "clamp_page_size sz =
     (if sz \<le> 0 then DEFAULT_PAGE_SIZE
      else if sz > MAX_PAGE_SIZE then MAX_PAGE_SIZE
      else sz)"

text \<open>
  The remote store. A row of the table is a record id with its cells. Every reply carries
  a code and a message; the reply to a search is read by the shape the API documents, and
  a field that is missing reads as the code's \<^verbatim>\<open>or\<close> defaults make it: no items,
  \<^verbatim>\<open>has_more\<close> false, the empty page token. A request is what the code hands to
  \<^verbatim>\<open>request_json\<close>: the URL up to the query and the bearer token, and for a search the two
  query parameters (the page token only when it is not empty) and the optional body.

  \<^verbatim>\<open>request_json\<close> itself, the HTTP exchange, is the environment: a script with one
  entry per call, each entry a function from the request to the reply, or to the
  exception the transport raises. A run that needs more replies than the script holds has
  the value \<open>None\<close>: the loop has not stopped yet.
\<close>

record row =
  record_id :: string
  cells :: "(string \<times> pyval) list"

record api_response =
  code :: int
  msg :: string

record search_response = api_response +
  data_items :: "row list"
  data_has_more :: bool
  data_page_token :: string

record search_body =
  body_view_id :: "string option"
  body_filter :: "filter_obj option"

record http_request =
  url :: string
  bearer :: string

record search_request = http_request +
  query_page_size :: string
  query_page_token :: "string option"
  body :: "search_body option"

type_synonym search_script = "(search_request \<Rightarrow> error + search_response) list"

definition search_request_of ::
  "string \<Rightarrow> string \<Rightarrow> BitableRef \<Rightarrow> int \<Rightarrow> string \<Rightarrow> bool \<Rightarrow> string \<Rightarrow> filter_obj option
   \<Rightarrow> search_request" where
  "search_request_of base_url token ref page_size page_token ignore_view view filter_object =
     \<lparr>url = base_url @ ''/open-apis/bitable/v1/apps/'' @ app_token ref
              @ ''/tables/'' @ table_id ref @ ''/records/search'',
      bearer = token,
      query_page_size = str_int page_size,
      query_page_token = (if page_token \<noteq> [] then Some page_token else None),
      body = (if (\<not> ignore_view \<and> view \<noteq> []) \<or> filter_object \<noteq> None
              then Some \<lparr>body_view_id = (if \<not> ignore_view \<and> view \<noteq> [] then Some view else None),
                          body_filter = filter_object\<rparr>
              else None)\<rparr>"

text \<open>
  The \<^verbatim>\<open>while True\<close> loop of \<^verbatim>\<open>fetch_records\<close>, one script entry per iteration. Its
  state is \<open>items\<close>, \<open>page_token\<close> and \<open>n\<close>, the source's \<^verbatim>\<open>pages\<close>; it returns the
  three as they are when the loop breaks.
\<close>

fun fetch_loop ::
  "string \<Rightarrow> string \<Rightarrow> BitableRef \<Rightarrow> int \<Rightarrow> int \<Rightarrow> bool \<Rightarrow> string \<Rightarrow> filter_obj option \<Rightarrow> int
   \<Rightarrow> row list \<Rightarrow> string \<Rightarrow> int \<Rightarrow> search_script
   \<Rightarrow> (error + row list \<times> string \<times> int) option" where
  "fetch_loop base_url token ref page_size limit ignore_view view filter_object max_pages
      items page_token n [] = None"
| "fetch_loop base_url token ref page_size limit ignore_view view filter_object max_pages
      items page_token n (reply # script) =
     (case reply
             (search_request_of base_url token ref page_size page_token ignore_view view filter_object) of
        Inl e \<Rightarrow> Some (Inl e)
      | Inr resp \<Rightarrow>
          if code resp \<noteq> 0
          then Some (Inl (RuntimeError (''search records failed: code='' @ str_int (code resp)
                                         @ '' msg='' @ msg resp)))
          else let items = items @ data_items resp;
                   n = n + 1;
                   more = data_has_more resp;
                   page_token = strip (data_page_token resp)
               in if limit > 0 \<and> int (length items) \<ge> limit
                  then Some (Inr (take (nat limit) items, page_token, n))
                  else if max_pages > 0 \<and> n \<ge> max_pages
                  then Some (Inr (items, page_token, n))
                  else if \<not> more \<or> page_token = []
                  then Some (Inr (items, page_token, n))
                  else fetch_loop base_url token ref page_size limit ignore_view view filter_object
                         max_pages items page_token n script)"

definition fetch_records ::
  "string \<Rightarrow> string \<Rightarrow> BitableRef \<Rightarrow> int \<Rightarrow> int \<Rightarrow> bool \<Rightarrow> string \<Rightarrow> filter_obj option \<Rightarrow> int
   \<Rightarrow> search_script \<Rightarrow> (error + row list \<times> PageInfo) option" where
  "fetch_records base_url token ref page_size limit ignore_view view filter_object max_pages script =
     (let page_size = clamp_page_size page_size;
          page_size = (if limit > 0 \<and> limit < page_size then limit else page_size)
      in case fetch_loop base_url token ref page_size limit ignore_view view filter_object max_pages
                [] [] 0 script of
           None \<Rightarrow> None
         | Some (Inl e) \<Rightarrow> Some (Inl e)
         | Some (Inr (items, page_token, n)) \<Rightarrow>
             Some (Inr (items, \<lparr>has_more = (page_token \<noteq> []),
                                 next_page_token = page_token,
                                 pages = n\<rparr>)))"

text \<open>
  The replies that a run of the loop reads from a script when no stop condition ends it:
  the request of each iteration carries the stripped page token of the reply before it, and
  the list ends where the script ends or the transport raises.
\<close>

fun replies_read ::
  "string \<Rightarrow> string \<Rightarrow> BitableRef \<Rightarrow> int \<Rightarrow> bool \<Rightarrow> string \<Rightarrow> filter_obj option \<Rightarrow> string
   \<Rightarrow> search_script \<Rightarrow> search_response list" where
  "replies_read base_url token ref page_size ignore_view view filter_object page_token [] = []"
| "replies_read base_url token ref page_size ignore_view view filter_object page_token
      (reply # script) =
     (case reply
             (search_request_of base_url token ref page_size page_token ignore_view view filter_object) of
        Inl e \<Rightarrow> []
      | Inr resp \<Rightarrow>
          resp # replies_read base_url token ref page_size ignore_view view filter_object
                   (strip (data_page_token resp)) script)"

text \<open>
  A store for examples: six rows served two to a page whatever the page size asked for,
  with \<^verbatim>\<open>has_more\<close> and a cursor on the first two pages and neither on the last. It
  answers by the cursor of the request. A second store answers every request with one row,
  \<^verbatim>\<open>has_more\<close> false and a cursor all the same.
\<close>

definition stub_row :: "string \<Rightarrow> row" where
  "stub_row rid = \<lparr>record_id = rid, cells = []\<rparr>"

definition stub_ref :: BitableRef where
  "stub_ref = \<lparr>raw_url = ''https://x/base/ABC123?table=T1'', app_token = ''ABC123'',
               table_id = ''T1'', view_id = [], wiki_token = []\<rparr>"

definition stub_store :: "search_request \<Rightarrow> error + search_response" where
  "stub_store req =
     (case query_page_token req of
        None \<Rightarrow> Inr \<lparr>code = 0, msg = ''success'',
                      data_items = [stub_row ''r1'', stub_row ''r2''],
                      data_has_more = True, data_page_token = ''p2''\<rparr>
      | Some t \<Rightarrow>
          if t = ''p2'' then Inr \<lparr>code = 0, msg = ''success'',
                      data_items = [stub_row ''r3'', stub_row ''r4''],
                      data_has_more = True, data_page_token = ''p3''\<rparr>
          else if t = ''p3'' then Inr \<lparr>code = 0, msg = ''success'',
                      data_items = [stub_row ''r5'', stub_row ''r6''],
                      data_has_more = False, data_page_token = []\<rparr>
          else Inr \<lparr>code = 1254030, msg = ''InvalidPageToken'',
                      data_items = [], data_has_more = False, data_page_token = []\<rparr>)"

definition stale_cursor_store :: "search_request \<Rightarrow> error + search_response" where
  "stale_cursor_store req =
     Inr \<lparr>code = 0, msg = ''success'', data_items = [stub_row ''r1''],
          data_has_more = False, data_page_token = ''p2''\<rparr>"


section \<open>The task decoder (\<^verbatim>\<open>fetch_tasks.py\<close>)\<close>

text \<open>
  The functions of the decoder call the normalizer from a fixed depth; the interpreter
  \<open>ip\<close> that they take is the one the normalizer is called with, which they hand down.
\<close>

definition bitable_value_to_string :: "interpreter \<Rightarrow> dumps \<Rightarrow> pyval \<Rightarrow> error + string" where
  "bitable_value_to_string ip d v =
     (case normalize_bitable_value ip d v of Inl e \<Rightarrow> Inl e | Inr s \<Rightarrow> Inr (strip s))"

definition field_string ::
  "interpreter \<Rightarrow> dumps \<Rightarrow> (string \<times> pyval) list \<Rightarrow> string \<Rightarrow> error + string" where
  "field_string ip d flds name =
     (if flds = [] \<or> name = [] then Inr []
      else bitable_value_to_string ip d (dict_get flds name))"

text \<open>
  \<^verbatim>\<open>int(float(raw))\<close>. Python's \<^verbatim>\<open>float\<close> on a string is a parameter \<open>pf\<close>: \<open>None\<close> when
  it raises \<^verbatim>\<open>ValueError\<close>, else the float as far as \<^verbatim>\<open>int\<close> reads it: finite, with
  the integer it truncates to, or infinite, or not a number. \<^verbatim>\<open>int\<close> raises
  \<^verbatim>\<open>ValueError\<close> on a NaN and \<^verbatim>\<open>OverflowError\<close> on an infinity; \<^verbatim>\<open>field_int\<close> catches
  \<^verbatim>\<open>ValueError\<close> only.
\<close>

datatype float_parse = Finite int | Infinite | NaN

type_synonym py_float = "string \<Rightarrow> float_parse option"

definition field_int ::
  "py_float \<Rightarrow> interpreter \<Rightarrow> dumps \<Rightarrow> (string \<times> pyval) list \<Rightarrow> string \<Rightarrow> error + int" where
  "field_int pf ip d flds name =
     (case field_string ip d flds name of
        Inl e \<Rightarrow> Inl e
      | Inr raw \<Rightarrow>
          if raw = [] then Inr 0
          else (case pf raw of
                  None \<Rightarrow> Inr 0
                | Some NaN \<Rightarrow> Inr 0
                | Some Infinite \<Rightarrow> Inl OverflowError
                | Some (Finite z) \<Rightarrow> Inr z))"

text \<open>\<^verbatim>\<open>mapping[name]\<close> raises \<^verbatim>\<open>KeyError\<close> on a name that is not mapped.\<close>

definition subscript :: "field_map \<Rightarrow> string \<Rightarrow> error + string" where
  "subscript mapping name = (case mapping name of None \<Rightarrow> Inl (KeyError name) | Some c \<Rightarrow> Inr c)"

text \<open>
  The keys of the task dictionary after \<^verbatim>\<open>task_id\<close>, each with the logical field it is
  read from, in the order of the dictionary display (which is the order of evaluation).
\<close>

definition TASK_KEYS :: "(string \<times> string) list" where
  "TASK_KEYS =
    [(''biz_task_id'', ''BizTaskID''),
     (''parent_task_id'', ''ParentTaskID''),
     (''app'', ''App''),
     (''scene'', ''Scene''),
     (''params'', ''Params''),
     (''item_id'', ''ItemID''),
     (''book_id'', ''BookID''),
     (''url'', ''URL''),
     (''user_id'', ''UserID''),
     (''user_name'', ''UserName''),
     (''date'', ''Date''),
     (''status'', ''Status''),
     (''extra'', ''Extra''),
     (''logs'', ''Logs''),
     (''last_screenshot'', ''LastScreenShot''),
     (''group_id'', ''GroupID''),
     (''device_serial'', ''DeviceSerial''),
     (''dispatched_device'', ''DispatchedDevice''),
     (''dispatched_at'', ''DispatchedAt''),
     (''start_at'', ''StartAt''),
     (''end_at'', ''EndAt''),
     (''elapsed_seconds'', ''ElapsedSeconds''),
     (''items_collected'', ''ItemsCollected''),
     (''retry_count'', ''RetryCount'')]"

definition PAYLOAD_KEYS :: "string list" where
  "PAYLOAD_KEYS = [''params'', ''item_id'', ''book_id'', ''url'', ''user_id'', ''user_name'']"

text \<open>The inner function \<^verbatim>\<open>get\<close> of \<^verbatim>\<open>decode_task\<close>.\<close>

definition get ::
  "interpreter \<Rightarrow> dumps \<Rightarrow> (string \<times> pyval) list \<Rightarrow> field_map \<Rightarrow> string \<Rightarrow> error + string" where
  "get ip d flds mapping name =
     (case subscript mapping name of Inl e \<Rightarrow> Inl e | Inr col \<Rightarrow> field_string ip d flds col)"

definition decode_task ::
  "py_float \<Rightarrow> interpreter \<Rightarrow> dumps \<Rightarrow> (string \<times> pyval) list \<Rightarrow> field_map
   \<Rightarrow> error + (string \<times> pyval) list option" where
  "decode_task pf ip d flds mapping =
     (if flds = [] then Inr None
      else case subscript mapping ''TaskID'' of
        Inl e \<Rightarrow> Inl e
      | Inr col \<Rightarrow>
         (case field_int pf ip d flds col of
            Inl e \<Rightarrow> Inl e
          | Inr task_id \<Rightarrow>
              if task_id = 0 then Inr None
              else (case sequence (map (\<lambda>(key, name). get ip d flds mapping name) TASK_KEYS) of
                      Inl e \<Rightarrow> Inl e
                    | Inr vals \<Rightarrow>
                        let task = (''task_id'', PInt task_id)
                                     # zip (map fst TASK_KEYS) (map PStr vals)
                        in if \<not> list_ex (\<lambda>key. py_bool (dict_get task key)) PAYLOAD_KEYS
                           then Inr None
                           else Inr (Some task))))"

text \<open>A table of \<^verbatim>\<open>float\<close> on a few texts, to evaluate examples.\<close>

definition float_table :: py_float where
  "float_table raw =
     (if raw = ''7'' then Some (Finite 7)
      else if raw = ''0'' then Some (Finite 0)
      else if raw = ''inf'' then Some Infinite
      else if raw = ''nan'' then Some NaN
      else None)"


section \<open>Creating tasks: the store and the helper module (\<^verbatim>\<open>create_tasks.py\<close>)\<close>

text \<open>
  \<^verbatim>\<open>create_tasks.py\<close> imports the module \<^verbatim>\<open>bitable_common\<close> as \<^verbatim>\<open>common\<close>; its source is
  not part of the repository as given. What \<^verbatim>\<open>create_tasks.py\<close> takes from it is a
  parameter \<open>cm\<close> of the model, a record with one field for each name used:
  \<^verbatim>\<open>MAX_PAGE_SIZE\<close>, \<^verbatim>\<open>clamp_page_size\<close>, \<^verbatim>\<open>bitable_value_to_string\<close> (which may raise),
  and the coercions \<^verbatim>\<open>coerce_int\<close>, \<^verbatim>\<open>coerce_millis\<close>, \<^verbatim>\<open>coerce_date_payload\<close> (each gives
  \<^verbatim>\<open>None\<close> when it cannot coerce) and \<^verbatim>\<open>normalize_extra\<close>. \<^verbatim>\<open>common.BitableRef\<close> is read
  as the dataclass of \<^verbatim>\<open>fetch_tasks.py\<close>, of which \<^verbatim>\<open>app_token\<close> and \<^verbatim>\<open>table_id\<close> are used.
\<close>

record bitable_common =
  common_MAX_PAGE_SIZE :: int
  common_clamp_page_size :: "int \<Rightarrow> int"
  common_bitable_value_to_string :: "pyval \<Rightarrow> error + string"
  common_coerce_int :: "pyval \<Rightarrow> int option"
  common_coerce_millis :: "pyval \<Rightarrow> int option"
  common_coerce_date_payload :: "pyval \<Rightarrow> pyval option"
  common_normalize_extra :: "pyval \<Rightarrow> pyval"

text \<open>
  \<^verbatim>\<open>common.request_json\<close> is the remote store, a state that the calls thread: \<open>replies\<close>
  gives, for the number of a call and its request, the reply or the exception raised, and
  \<open>calls\<close> is the list of the requests made so far, appended to by every call.
\<close>

record ('q, 'r) store =
  replies :: "nat \<Rightarrow> 'q \<Rightarrow> error + 'r"
  calls :: "'q list"

definition request_json :: "'q \<Rightarrow> ('q, 'r) store \<Rightarrow> (error + 'r) \<times> ('q, 'r) store" where
  "request_json req s = (replies s (length (calls s)) req, s\<lparr>calls := calls s @ [req]\<rparr>)"

definition MAX_BATCH_SIZE :: nat where
  "MAX_BATCH_SIZE = 500"

definition MAX_FILTER_VALUES :: int where
  "MAX_FILTER_VALUES = 50"

definition table_url :: "string \<Rightarrow> BitableRef \<Rightarrow> string" where
  "table_url base_url ref =
     base_url @ ''/open-apis/bitable/v1/apps/'' @ app_token ref @ ''/tables/'' @ table_id ref"


section \<open>The existence probe (\<^verbatim>\<open>create_tasks.py\<close>)\<close>

definition record_exists ::
  "string \<Rightarrow> string \<Rightarrow> BitableRef \<Rightarrow> string \<Rightarrow> (http_request, api_response) store
   \<Rightarrow> (error + bool) \<times> (http_request, api_response) store" where
  "record_exists base_url token ref rid s =
     (let rid = strip rid
      in if rid = [] then (Inr False, s)
         else case request_json \<lparr>url = table_url base_url ref @ ''/records/'' @ rid,
                                  bearer = token\<rparr> s of
                (Inl e, s) \<Rightarrow> if is_Exception e then (Inr False, s) else (Inl e, s)
              | (Inr resp, s) \<Rightarrow> (Inr (code resp = 0), s))"


section \<open>Single and batch creation (\<^verbatim>\<open>create_tasks.py\<close>)\<close>

text \<open>
  The fields of a row to create are a dictionary from column names to values. A create
  request carries either the fields of one row or a list of rows.
\<close>

type_synonym create_fields = "string \<rightharpoonup> pyval"

datatype create_payload = Fields create_fields | Records "create_fields list"

record create_request = http_request +
  payload :: create_payload

type_synonym create_store = "(create_request, api_response) store"

definition batch_create_records ::
  "string \<Rightarrow> string \<Rightarrow> BitableRef \<Rightarrow> create_fields list \<Rightarrow> create_store
   \<Rightarrow> (error + unit) \<times> create_store" where
  "batch_create_records base_url token ref records s =
     (case request_json \<lparr>url = table_url base_url ref @ ''/records/batch_create'',
                          bearer = token, payload = Records records\<rparr> s of
        (Inl e, s) \<Rightarrow> (Inl e, s)
      | (Inr resp, s) \<Rightarrow>
          if code resp \<noteq> 0
          then (Inl (RuntimeError (''batch create failed: code='' @ str_int (code resp)
                                    @ '' msg='' @ msg resp)), s)
          else (Inr (), s))"

definition create_record ::
  "string \<Rightarrow> string \<Rightarrow> BitableRef \<Rightarrow> create_fields \<Rightarrow> create_store
   \<Rightarrow> (error + unit) \<times> create_store" where
  "create_record base_url token ref flds s =
     (case request_json \<lparr>url = table_url base_url ref @ ''/records'',
                          bearer = token, payload = Fields flds\<rparr> s of
        (Inl e, s) \<Rightarrow> (Inl e, s)
      | (Inr resp, s) \<Rightarrow>
          if code resp \<noteq> 0
          then (Inl (RuntimeError (''create record failed: code='' @ str_int (code resp)
                                    @ '' msg='' @ msg resp)), s)
          else (Inr (), s))"

text \<open>
  The end of \<^verbatim>\<open>main\<close>, from \<^verbatim>\<open>created = 0\<close> on. \<open>batch_loop\<close> is the \<^verbatim>\<open>for idx in
  range(0, len(records), MAX_BATCH_SIZE)\<close> loop; it returns the count \<^verbatim>\<open>created\<close> as it
  stands when the loop ends or an exception leaves it, that exception if any, and the
  store. \<open>main_create\<close> is the \<^verbatim>\<open>try\<close> statement around it with what follows: a
  \<^verbatim>\<open>RuntimeError\<close> is appended to \<^verbatim>\<open>errors\<close>, any other exception leaves \<^verbatim>\<open>main\<close>; the
  result is the report printed (without the elapsed time) and the exit code.
\<close>

function batch_loop ::
  "string \<Rightarrow> string \<Rightarrow> BitableRef \<Rightarrow> create_fields list \<Rightarrow> nat \<Rightarrow> int \<Rightarrow> create_store
   \<Rightarrow> int \<times> error option \<times> create_store" where
  "batch_loop base_url token ref records idx created s =
     (if idx < length records
      then let batch = take MAX_BATCH_SIZE (drop idx records)
           in case batch_create_records base_url token ref batch s of
                (Inl e, s) \<Rightarrow> (created, Some e, s)
              | (Inr _, s) \<Rightarrow>
                  batch_loop base_url token ref records (idx + MAX_BATCH_SIZE)
                    (created + int (length batch)) s
      else (created, None, s))"
  by pat_completeness auto
termination
  by (relation "measure (\<lambda>(base_url, token, ref, records, idx, created, s). length records - idx)")
    (auto simp: MAX_BATCH_SIZE_def)

declare batch_loop.simps [simp del]

record report =
  created :: int
  requested :: int
  skipped :: int
  failed :: int
  errors :: "string list"

definition main_create ::
  "string \<Rightarrow> string \<Rightarrow> BitableRef \<Rightarrow> create_fields list \<Rightarrow> string list \<Rightarrow> int \<Rightarrow> create_store
   \<Rightarrow> (error + report \<times> int) \<times> create_store" where
  "main_create base_url token ref records errs skip s =
     (case (if length records = 1
            then (case create_record base_url token ref (records ! 0) s of
                    (Inl e, s) \<Rightarrow> (0, Some e, s)
                  | (Inr _, s) \<Rightarrow> (1, None, s))
            else batch_loop base_url token ref records 0 0 s) of
        (n, exc, s) \<Rightarrow>
          (case exc of
             Some e \<Rightarrow>
               if is_RuntimeError e
               then (Inr (\<lparr>created = n, requested = int (length records), skipped = skip,
                            failed = int (length (errs @ [str_exc e])),
                            errors = errs @ [str_exc e]\<rparr>, 1), s)
               else (Inl e, s)
           | None \<Rightarrow>
               (Inr (\<lparr>created = n, requested = int (length records), skipped = skip,
                        failed = int (length errs), errors = errs\<rparr>,
                     if errs = [] then 0 else 1), s)))"

text \<open>
  Stores for examples: one that accepts every request, one that rejects the second
  call (call number 1) with a code that is not 0, and one on which the second call fails
  in the transport, as \<^verbatim>\<open>urlopen\<close> does when the connection drops.
\<close>

definition accepting :: "nat \<Rightarrow> 'q \<Rightarrow> error + api_response" where
  "accepting n req = Inr \<lparr>code = 0, msg = ''success''\<rparr>"

definition rejecting_second :: "nat \<Rightarrow> 'q \<Rightarrow> error + api_response" where
  "rejecting_second n req =
     (if n = 1 then Inr \<lparr>code = 1254291, msg = ''Write conflict''\<rparr>
      else Inr \<lparr>code = 0, msg = ''success''\<rparr>)"

text \<open>
  To state what the batch loop sends: chunk number \<open>i\<close> of the records, and the request
  that \<^verbatim>\<open>batch_create_records\<close> makes for a list of rows.
\<close>

definition chunk :: "create_fields list \<Rightarrow> nat \<Rightarrow> create_fields list" where
  "chunk records i = take MAX_BATCH_SIZE (drop (i * MAX_BATCH_SIZE) records)"

definition batch_request :: "string \<Rightarrow> string \<Rightarrow> BitableRef \<Rightarrow> create_fields list \<Rightarrow> create_request" where
  "batch_request base_url token ref rows =
     \<lparr>url = table_url base_url ref @ ''/records/batch_create'', bearer = token,
      payload = Records rows\<rparr>"

definition dropping_second :: "nat \<Rightarrow> 'q \<Rightarrow> error + api_response" where
  "dropping_second n req =
     (if n = 1 then Inl URLError else Inr \<lparr>code = 0, msg = ''success''\<rparr>)"

definition accepting_store :: create_store where
  "accepting_store = \<lparr>replies = accepting, calls = []\<rparr>"

definition rejecting_store :: create_store where
  "rejecting_store = \<lparr>replies = rejecting_second, calls = []\<rparr>"

definition dropping_store :: create_store where
  "dropping_store = \<lparr>replies = dropping_second, calls = []\<rparr>"

text \<open>A store for the row lookup on which every request fails in the transport.\<close>

definition unreachable_store :: "(http_request, api_response) store" where
  "unreachable_store = \<lparr>replies = (\<lambda>n req. Inl URLError), calls = []\<rparr>"


section \<open>The existing-record resolver (\<^verbatim>\<open>create_tasks.py\<close>)\<close>

text \<open>
  \<^verbatim>\<open>chunked\<close>: the slices \<^verbatim>\<open>values[i : i + size]\<close> for \<^verbatim>\<open>i\<close> in
  \<^verbatim>\<open>range(0, len(values), size)\<close>; the range has one element for every started block of
  \<^verbatim>\<open>size\<close> values, and its element number \<open>j\<close> is \<open>j * size\<close>.
\<close>

definition chunked :: "'a list \<Rightarrow> int \<Rightarrow> 'a list list" where
  "chunked vals sz =
     (if sz \<le> 0 then [vals]
      else map (\<lambda>j. take (nat sz) (drop (j * nat sz) vals))
             [0..<(length vals + nat sz - 1) div nat sz])"

text \<open>
  \<^verbatim>\<open>build_id_filter\<close>. \<open>id_conditions\<close> is its loop, with the set \<^verbatim>\<open>seen\<close> as an argument:
  one condition for every value that is neither blank nor seen before, once stripped.
\<close>

fun id_conditions :: "string \<Rightarrow> string set \<Rightarrow> string list \<Rightarrow> condition list" where
  "id_conditions name seen [] = []"
| "id_conditions name seen (v # vals) =
     (let v = strip v
      in if v = [] \<or> v \<in> seen then id_conditions name seen vals
         else \<lparr>field_name = name, operator = ''is'', value_list = [v]\<rparr>
                # id_conditions name (insert v seen) vals)"

definition build_id_filter :: "string \<Rightarrow> string list \<Rightarrow> filter_obj option" where
  "build_id_filter name vals =
     (let name = strip name
      in if name = [] then None
         else let conds = id_conditions name {} vals
              in if conds = [] then None
                 else Some \<lparr>conjunction = ''or'', conditions = conds\<rparr>)"

text \<open>
  The \<^verbatim>\<open>fetch_records\<close> of \<^verbatim>\<open>create_tasks.py\<close> (one search, no paging), named apart from
  the one of \<^verbatim>\<open>fetch_tasks.py\<close>, and the request it makes.
\<close>

type_synonym search_store = "(search_request, search_response) store"

definition search_once_request ::
  "bitable_common \<Rightarrow> string \<Rightarrow> string \<Rightarrow> BitableRef \<Rightarrow> filter_obj option \<Rightarrow> int
   \<Rightarrow> search_request" where
  "search_once_request cm base_url token ref filter_object page_size =
     \<lparr>url = table_url base_url ref @ ''/records/search'',
      bearer = token,
      query_page_size = str_int (common_clamp_page_size cm page_size),
      query_page_token = None,
      body = (case filter_object of
                Some f \<Rightarrow> Some \<lparr>body_view_id = None, body_filter = Some f\<rparr>
              | None \<Rightarrow> None)\<rparr>"

definition create_tasks_fetch_records ::
  "bitable_common \<Rightarrow> string \<Rightarrow> string \<Rightarrow> BitableRef \<Rightarrow> filter_obj option \<Rightarrow> int \<Rightarrow> search_store
   \<Rightarrow> (error + row list) \<times> search_store" where
  "create_tasks_fetch_records cm base_url token ref filter_object page_size s =
     (case request_json (search_once_request cm base_url token ref filter_object page_size) s of
        (Inl e, s) \<Rightarrow> (Inl e, s)
      | (Inr resp, s) \<Rightarrow>
          if code resp \<noteq> 0
          then (Inl (RuntimeError (''search records failed: code='' @ str_int (code resp)
                                    @ '' msg='' @ msg resp)), s)
          else (Inr (data_items resp), s))"

text \<open>
  \<^verbatim>\<open>resolve_existing_by_field\<close>. \<open>cell_text\<close> is the value read from a result row,
  \<^verbatim>\<open>bitable_value_to_string(raw_fields.get(field_name, ""))\<close>; \<open>record_items\<close> is the inner
  loop over the rows of one search, \<open>resolve_loop\<close> the outer loop over the chunks. The
  dictionary \<^verbatim>\<open>existing\<close> is threaded through both.
\<close>

definition cell_text :: "bitable_common \<Rightarrow> string \<Rightarrow> row \<Rightarrow> error + string" where
  "cell_text cm name item =
     common_bitable_value_to_string cm
       (case map_of (cells item) name of None \<Rightarrow> PStr [] | Some v \<Rightarrow> v)"

fun record_items ::
  "bitable_common \<Rightarrow> string \<Rightarrow> (string \<rightharpoonup> string) \<Rightarrow> row list \<Rightarrow> error + (string \<rightharpoonup> string)" where
  "record_items cm name existing [] = Inr existing"
| "record_items cm name existing (item # items) =
     (case cell_text cm name item of
        Inl e \<Rightarrow> Inl e
      | Inr v \<Rightarrow>
          record_items cm name
            (if strip (record_id item) \<noteq> [] \<and> v \<noteq> [] \<and> existing v = None
             then existing(v \<mapsto> strip (record_id item)) else existing)
            items)"

definition chunk_page_size :: "bitable_common \<Rightarrow> string list \<Rightarrow> int" where
  "chunk_page_size cm batch = min (common_MAX_PAGE_SIZE cm) (max (int (length batch)) 1)"

fun resolve_loop ::
  "bitable_common \<Rightarrow> string \<Rightarrow> string \<Rightarrow> BitableRef \<Rightarrow> string \<Rightarrow> (string \<rightharpoonup> string)
   \<Rightarrow> string list list \<Rightarrow> search_store \<Rightarrow> (error + (string \<rightharpoonup> string)) \<times> search_store" where
  "resolve_loop cm base_url token ref name existing [] s = (Inr existing, s)"
| "resolve_loop cm base_url token ref name existing (batch # batches) s =
     (case build_id_filter name batch of
        None \<Rightarrow> resolve_loop cm base_url token ref name existing batches s
      | Some f \<Rightarrow>
          (case create_tasks_fetch_records cm base_url token ref (Some f)
                  (chunk_page_size cm batch) s of
             (Inl e, s) \<Rightarrow> (Inl e, s)
           | (Inr items, s) \<Rightarrow>
               (case record_items cm name existing items of
                  Inl e \<Rightarrow> (Inl e, s)
                | Inr existing \<Rightarrow> resolve_loop cm base_url token ref name existing batches s)))"

definition resolve_existing_by_field ::
  "bitable_common \<Rightarrow> string \<Rightarrow> string \<Rightarrow> BitableRef \<Rightarrow> string \<Rightarrow> string list \<Rightarrow> search_store
   \<Rightarrow> (error + (string \<rightharpoonup> string)) \<times> search_store" where
  "resolve_existing_by_field cm base_url token ref name vals s =
     (if vals = [] then (Inr Map.empty, s)
      else resolve_loop cm base_url token ref name Map.empty (chunked vals MAX_FILTER_VALUES) s)"





text \<open>
  For examples: a helper module whose \<^verbatim>\<open>bitable_value_to_string\<close> is that of
  \<^verbatim>\<open>fetch_tasks.py\<close> and whose coercions know integers only, and a store that answers
  every search with the same three rows, two of them carrying the same value.
\<close>

definition stub_common :: bitable_common where
  "stub_common =
     \<lparr>common_MAX_PAGE_SIZE = 500,
      common_clamp_page_size = clamp_page_size,
      common_bitable_value_to_string = bitable_value_to_string default_interpreter dumps_raises,
      common_coerce_int = (\<lambda>v. case v of PInt i \<Rightarrow> Some i | _ \<Rightarrow> None),
      common_coerce_millis = (\<lambda>v. case v of PInt i \<Rightarrow> Some i | _ \<Rightarrow> None),
      common_coerce_date_payload = (\<lambda>v. None),
      common_normalize_extra = (\<lambda>v. v)\<rparr>"

definition three_rows :: "row list" where
  "three_rows = [\<lparr>record_id = ''recA'', cells = [(''BizTaskID'', PStr ''b1'')]\<rparr>,
                 \<lparr>record_id = ''recB'', cells = [(''BizTaskID'', PStr ''b1'')]\<rparr>,
                 \<lparr>record_id = ''recC'', cells = [(''BizTaskID'', PStr ''b3'')]\<rparr>]"

definition three_rows_store :: search_store where
  "three_rows_store =
     \<lparr>replies = (\<lambda>n req. Inr \<lparr>code = 0, msg = ''success'', data_items = three_rows,
                                data_has_more = False, data_page_token = []\<rparr>),
      calls = []\<rparr>"




section \<open>The fields of a row to create (\<^verbatim>\<open>create_tasks.py\<close>)\<close>






















section \<open>Properties of the value normalizer\<close>

lemma size_dict_get_le: "size (dict_get obj key) \<le> size_list (size_prod (\<lambda>_. 0) size) obj"
  by (induction obj) (auto simp: dict_get_def split: option.splits)

lemma size_member_less: "x \<in> set items \<Longrightarrow> size x < size_list size items"
  for x :: pyval
  by (induction items) auto

lemma decodable_dict_get: "decodable (PDict obj) \<Longrightarrow> decodable (dict_get obj key)"
  by (auto simp: dict_get_def split: option.splits dest!: map_of_SomeD)

lemma digits_within_dict_get:
  "digits_within m (PDict obj) \<Longrightarrow> digits_within m (dict_get obj key)"
  by (auto simp: dict_get_def split: option.splits dest!: map_of_SomeD)

lemma fold_max_ge: "a \<le> fold max xs a" "x \<in> set xs \<Longrightarrow> x \<le> fold max xs a"
  for a :: nat
proof -
  have "a \<le> fold max xs a \<and> (\<forall>x \<in> set xs. x \<le> fold max xs a)"
  proof (induction xs arbitrary: a)
    case Nil
    show ?case by simp
  next
    case (Cons y ys)
    from Cons.IH [of "max y a"] show ?case by auto
  qed
  then show "a \<le> fold max xs a" "x \<in> set xs \<Longrightarrow> x \<le> fold max xs a"
    by blast+
qed

lemma depth_member: "x \<in> set items \<Longrightarrow> depth x < depth (PList items)"
  using fold_max_ge(2) [of "depth x" "map depth items" 0] by (simp add: less_Suc_eq_le)

lemma depth_dict_get: "depth (dict_get obj key) < depth (PDict obj)"
proof (cases "map_of obj key")
  case None
  then show ?thesis by (simp add: dict_get_def)
next
  case (Some v)
  then have "(key, v) \<in> set obj"
    by (rule map_of_SomeD)
  then have "depth v \<in> set (map (\<lambda>kv. depth (snd kv)) obj)"
    by force
  from fold_max_ge(2) [OF this, of 0] Some show ?thesis
    by (simp add: dict_get_def less_Suc_eq_le)
qed

lemma frames_below [simp]: "frames (below ip k) = frames ip - k"
  by (simp add: below_def)

lemma int_max_str_digits_below [simp]: "int_max_str_digits (below ip k) = int_max_str_digits ip"
  by (simp add: below_def)

lemma comprehension_depth_below [simp]:
  "comprehension_depth (below ip k) = comprehension_depth ip"
  by (simp add: below_def comprehension_depth_def)

lemma comprehension_depth_le: "comprehension_depth ip \<le> 1"
  by (simp add: comprehension_depth_def)

lemma sequence_returns:
  "(\<And>x. x \<in> set xs \<Longrightarrow> \<exists>s. f x = Inr s) \<Longrightarrow> \<exists>ys. sequence (map f xs) = Inr ys"
proof (induction xs)
  case Nil
  then show ?case by simp
next
  case (Cons x xs)
  then obtain s ys where "f x = Inr s" "sequence (map f xs) = Inr ys"
    by (meson list.set_intros)
  then show ?case by simp
qed

lemma first_text_returns:
  "(\<And>x. x \<in> set xs \<Longrightarrow> \<exists>s. f x = Inr s) \<Longrightarrow> \<exists>t. first_text (map f xs) = Inr t"
proof (induction xs)
  case Nil
  then show ?case by simp
next
  case (Cons x xs)
  then obtain s t where "f x = Inr s" "first_text (map f xs) = Inr t"
    by (meson list.set_intros)
  then show ?case by simp
qed

lemma normalize_bitable_object_returns:
  assumes "frames ip \<noteq> 0"
    and "\<And>key. \<exists>s. normalize_bitable_value (below ip 1) d (dict_get obj key) = Inr s"
  shows "\<exists>s. normalize_bitable_object ip d obj = Inr s"
proof -
  let ?present = "\<lambda>key. if has_key obj key
                         then if frames ip = 0 then Inl RecursionError
                              else normalize_bitable_value (below ip 1) d (dict_get obj key)
                         else Inr []"
  let ?get = "\<lambda>key. if frames ip = 0 then Inl RecursionError
                     else normalize_bitable_value (below ip 1) d (dict_get obj key)"
  have "\<exists>s. ?present key = Inr s" for key
    using assms(1) assms(2) [of key] by simp
  then obtain t1 where t1:
    "first_text (map ?present [''value'', ''values'', ''elements'', ''content'']) = Inr t1"
    using first_text_returns [of _ ?present] by blast
  have get: "\<exists>s. ?get key = Inr s" for key
    using assms(1) assms(2) [of key] by simp
  obtain t2 where t2:
    "first_text (map ?get [''link'', ''name'', ''en_name'', ''email'', ''id'', ''user_id'',
                           ''url'', ''tmp_url'', ''file_token'']) = Inr t2"
    using first_text_returns [of _ ?get] get by blast
  obtain ps where ps:
    "sequence (map ?get [''location'', ''pname'', ''cityname'', ''adname'']) = Inr ps"
    using sequence_returns [of _ ?get] get by blast
  have "normalize_bitable_object ip d obj =
     (if obj = [] then Inr []
      else if t1 \<noteq> [] then Inr t1
      else if isinstance_str (dict_get obj ''text'')
                  \<and> strip (py_str (dict_get obj ''text'')) \<noteq> []
            then Inr (strip (py_str (dict_get obj ''text'')))
      else if t2 \<noteq> [] then Inr t2
      else (case (if list_ex (has_key obj)
                               [''address'', ''location'', ''pname'', ''cityname'', ''adname'']
                          then Inr ps else Inr []) of
                Inl e \<Rightarrow> Inl e
              | Inr parts \<Rightarrow>
                  if non_empty parts \<noteq> [] then Inr (join '','' (non_empty parts))
                  else (case d obj of Some s \<Rightarrow> Inr s | None \<Rightarrow> Inr [])))"
    by (subst normalize_bitable_object.simps) (simp only: t1 t2 ps sum.case)
  then show ?thesis
    by (simp split: option.splits)
qed

lemma join_rich_text_returns:
  assumes "frames ip \<noteq> 0"
    and "\<And>x. x \<in> set items \<Longrightarrow> \<exists>s. normalize_bitable_value (below ip 1) d x = Inr s"
    and "\<And>obj. PDict obj \<in> set items
           \<Longrightarrow> \<exists>s. normalize_bitable_value (below ip 1) d (dict_get obj ''value'') = Inr s"
  shows "\<exists>s. join_rich_text ip d items = Inr s"
proof -
  let ?part = "\<lambda>item. case item of
               PDict obj \<Rightarrow>
                 (if isinstance_str (dict_get obj ''text'')
                     \<and> strip (py_str (dict_get obj ''text'')) \<noteq> []
                  then Inr (strip (py_str (dict_get obj ''text'')))
                  else if frames ip = 0 then Inl RecursionError
                  else normalize_bitable_value (below ip 1) d (dict_get obj ''value''))
             | _ \<Rightarrow>
                 if frames ip = 0 then Inl RecursionError
                 else normalize_bitable_value (below ip 1) d item"
  have "\<exists>s. ?part x = Inr s" if "x \<in> set items" for x
    using assms that by (cases x) auto
  then obtain ps where "sequence (map ?part items) = Inr ps"
    using sequence_returns [of items ?part] by blast
  then show ?thesis
    by (subst join_rich_text.simps) simp
qed

lemma normalize_bitable_array_returns:
  assumes "2 \<le> frames ip"
    and "\<And>x. x \<in> set items
           \<Longrightarrow> \<exists>s. normalize_bitable_value (below ip (comprehension_depth ip + 1)) d x = Inr s"
    and "\<exists>s. join_rich_text (below ip 1) d items = Inr s"
  shows "\<exists>s. normalize_bitable_array ip d items = Inr s"
proof -
  obtain ps where ps: "sequence (map (normalize_bitable_value
                                        (below ip (comprehension_depth ip + 1)) d) items) = Inr ps"
    using sequence_returns [of items "normalize_bitable_value
                                        (below ip (comprehension_depth ip + 1)) d"] assms(2)
    by blast
  from assms(3) obtain j where j: "join_rich_text (below ip 1) d items = Inr j"
    by blast
  from assms(1) comprehension_depth_le [of ip]
  have room: "frames ip \<noteq> 0" "\<not> frames ip \<le> comprehension_depth ip"
    by simp_all
  from ps j room show ?thesis
    by (subst normalize_bitable_array.simps) simp
qed

text \<open>
  C1. The spec has the normalizer map a boolean to \<^verbatim>\<open>true\<close> or \<^verbatim>\<open>false\<close>. The code tests
  \<^verbatim>\<open>isinstance(value, int)\<close> before \<^verbatim>\<open>isinstance(value, bool)\<close>; a boolean is an
  \<^verbatim>\<open>int\<close>, so it leaves through the integer branch with \<^verbatim>\<open>str(value)\<close>, which is
  \<^verbatim>\<open>True\<close> or \<^verbatim>\<open>False\<close>, and the boolean branch is never taken.
\<close>

theorem normalize_bool_takes_int_branch:
  "normalize_bitable_value ip d (PBool b) = Inr (if b then ''True'' else ''False'')"
  by (simp add: normalize_bitable_value.simps str_of_int_def)

text \<open>
  C2, as stated (the normalizer never raises on any shape, bytes included), fails: the bytes
  branch decodes strictly, and a bytes object that is not UTF-8 raises
  \<^verbatim>\<open>UnicodeDecodeError\<close>.
\<close>

theorem normalize_raises_on_bad_bytes:
  "normalize_bitable_value default_interpreter dumps_raises (PBytes NotUtf8)
   = Inl UnicodeDecodeError"
  by (simp add: normalize_bitable_value.simps)

text \<open>
  The two limits of the interpreter make it raise as well. A string within \<open>k\<close> arrays of
  one element takes two frames for each array, and three where the comprehension has a frame
  of its own: the normalizer raises \<^verbatim>\<open>RecursionError\<close> exactly when fewer frames are left,
  so with a frame for each comprehension and 990 frames left, at a nesting of 331 or more.
  An integer with more digits than the limit raises \<^verbatim>\<open>ValueError\<close>.
\<close>

lemma normalize_nest:
  "normalize_bitable_value ip d (nest k (PStr s))
   = (if frames ip < (comprehension_depth ip + 2) * k then Inl RecursionError
      else Inr (strip s))"
proof (induction k arbitrary: ip)
  case 0
  show ?case by (simp add: normalize_bitable_value.simps)
next
  case (Suc k)
  let ?c = "comprehension_depth ip"
  have plain: "\<not> is_rich_text_array [nest k (PStr s)]"
    by (cases k) simp_all
  have one: "join '','' (non_empty [t]) = t" for t
    by (simp add: non_empty_def)
  have "normalize_bitable_value ip d (nest (Suc k) (PStr s))
      = (if frames ip = 0 then Inl RecursionError
         else if frames ip - 1 = 0 then Inl RecursionError
         else if frames ip - 1 \<le> ?c then Inl RecursionError
         else (case normalize_bitable_value (below (below ip 1) (?c + 1)) d (nest k (PStr s)) of
                 Inl e \<Rightarrow> Inl e
               | Inr t \<Rightarrow> Inr t))"
    by (simp add: normalize_bitable_value.simps [of ip] normalize_bitable_array.simps plain one
        split: sum.splits)
  also have "\<dots> = (if frames ip < (?c + 2) * Suc k then Inl RecursionError else Inr (strip s))"
    using comprehension_depth_le [of ip] by (auto simp: Suc.IH)
  finally show ?case .
qed

lemma normalize_raises_on_deep_nesting:
  "normalize_bitable_value default_interpreter d (nest 331 (PStr ''x'')) = Inl RecursionError"
  "normalize_bitable_value default_interpreter d (nest 330 (PStr ''x'')) = Inr ''x''"
  by (simp_all add: normalize_nest default_interpreter_def comprehension_depth_def strip_def
      py_isspace_def)

lemma normalize_raises_on_long_integer:
  "int_max_str_digits ip \<noteq> 0 \<Longrightarrow> int_max_str_digits ip < length (str_nat (nat \<bar>i\<bar>))
   \<Longrightarrow> normalize_bitable_value ip d (PInt i) = Inl ValueError"
  by (simp add: normalize_bitable_value.simps str_of_int_def)

text \<open>
  C2, amended: on every value in which each bytes object decodes as UTF-8 and no integer
  has more decimal digits than the interpreter prints, and whose depth of nesting \<open>k\<close>
  leaves \<open>3 k\<close> frames below the call, the normalizer returns a string and raises nothing,
  whatever \<^verbatim>\<open>json.dumps\<close> does. For a scalar \<open>k\<close> is 0: on every scalar shape but bytes that
  do not decode and integers too long to print it returns whatever the interpreter's stack.
\<close>

theorem normalize_total_on_decodable:
  assumes "decodable v" and "digits_within (int_max_str_digits ip) v"
    and "3 * depth v \<le> frames ip"
  shows "\<exists>s. normalize_bitable_value ip d v = Inr s"
  using assms
proof (induction v arbitrary: ip rule: measure_induct_rule [where f = size])
  case (less v)
  show ?case
  proof (cases v)
    case (PBytes b)
    with less.prems show ?thesis
      by (cases b) (simp_all add: normalize_bitable_value.simps)
  next
    case (PInt i)
    with less.prems show ?thesis
      by (auto simp: normalize_bitable_value.simps str_of_int_def)
  next
    case (PFloat f)
    then show ?thesis
      by (cases f) (simp_all add: normalize_bitable_value.simps)
  next
    case (PList items)
    from less.prems(3) PList have room: "3 \<le> frames ip"
      by simp
    have elems: "\<exists>s. normalize_bitable_value ip' d x = Inr s"
      if "x \<in> set items" and "int_max_str_digits ip' = int_max_str_digits ip"
        and "frames ip - 3 \<le> frames ip'" for x ip'
    proof (rule less.IH)
      show "size x < size v"
        using that(1) size_member_less [of x items] PList by simp
      show "decodable x"
        using less.prems(1) that(1) PList by simp
      show "digits_within (int_max_str_digits ip') x"
        using less.prems(2) that(1,2) PList by simp
      show "3 * depth x \<le> frames ip'"
        using less.prems(3) that(3) depth_member [OF that(1)] PList by simp
    qed
    have nested: "\<exists>s. normalize_bitable_value ip' d (dict_get obj ''value'') = Inr s"
      if "PDict obj \<in> set items" and "int_max_str_digits ip' = int_max_str_digits ip"
        and "frames ip - 3 \<le> frames ip'" for obj ip'
    proof (rule less.IH)
      show "size (dict_get obj ''value'') < size v"
        using size_dict_get_le [of obj "''value''"] size_member_less [OF that(1)] PList by simp
      show "decodable (dict_get obj ''value'')"
        using less.prems(1) that(1) PList decodable_dict_get [of obj] by auto
      show "digits_within (int_max_str_digits ip') (dict_get obj ''value'')"
        using less.prems(2) that(1,2) PList digits_within_dict_get [of _ obj] by auto
      show "3 * depth (dict_get obj ''value'') \<le> frames ip'"
        using less.prems(3) that(3) depth_member [OF that(1)] depth_dict_get [of obj "''value''"]
          PList by simp
    qed
    have "\<exists>s. join_rich_text (below (below ip 1) 1) d items = Inr s"
    proof (rule join_rich_text_returns)
      show "frames (below (below ip 1) 1) \<noteq> 0"
        using room by simp
      show "\<exists>s. normalize_bitable_value (below (below (below ip 1) 1) 1) d x = Inr s"
        if "x \<in> set items" for x
        using that by (intro elems) simp_all
      show "\<exists>s. normalize_bitable_value (below (below (below ip 1) 1) 1) d
                   (dict_get obj ''value'') = Inr s"
        if "PDict obj \<in> set items" for obj
        using that by (intro nested) simp_all
    qed
    moreover have "\<exists>s. normalize_bitable_value
                     (below (below ip 1) (comprehension_depth (below ip 1) + 1)) d x = Inr s"
      if "x \<in> set items" for x
      using that comprehension_depth_le [of ip] by (intro elems) simp_all
    moreover have "2 \<le> frames (below ip 1)"
      using room by simp
    ultimately have "\<exists>s. normalize_bitable_array (below ip 1) d items = Inr s"
      by (intro normalize_bitable_array_returns)
    with room PList show ?thesis
      by (simp add: normalize_bitable_value.simps)
  next
    case (PDict obj)
    from less.prems(3) PDict have room: "3 \<le> frames ip"
      by simp
    have "\<exists>s. normalize_bitable_value (below (below ip 1) 1) d (dict_get obj key) = Inr s" for key
    proof (rule less.IH)
      show "size (dict_get obj key) < size v"
        using size_dict_get_le [of obj key] PDict by simp
      show "decodable (dict_get obj key)"
        using less.prems(1) PDict decodable_dict_get [of obj] by simp
      show "digits_within (int_max_str_digits (below (below ip 1) 1)) (dict_get obj key)"
        using less.prems(2) PDict digits_within_dict_get [of _ obj] by simp
      show "3 * depth (dict_get obj key) \<le> frames (below (below ip 1) 1)"
        using less.prems(3) depth_dict_get [of obj key] PDict by simp
    qed
    moreover have "frames (below ip 1) \<noteq> 0"
      using room by simp
    ultimately have "\<exists>s. normalize_bitable_object (below ip 1) d obj = Inr s"
      by (intro normalize_bitable_object_returns)
    with room PDict show ?thesis
      by (simp add: normalize_bitable_value.simps)
  qed (simp_all add: normalize_bitable_value.simps str_of_int_def)
qed

theorem normalize_total_on_decodable_witness:
  "decodable (PList [PDict [(''text'', PStr ''a'')], PBytes (Utf8 ''b''), PInt 7,
                     PFloat (FloatOther ''inf'')])
   \<and> digits_within (int_max_str_digits default_interpreter)
        (PList [PDict [(''text'', PStr ''a'')], PBytes (Utf8 ''b''), PInt 7,
                PFloat (FloatOther ''inf'')])
   \<and> 3 * depth (PList [PDict [(''text'', PStr ''a'')], PBytes (Utf8 ''b''), PInt 7,
                        PFloat (FloatOther ''inf'')]) \<le> frames default_interpreter
   \<and> (\<exists>s. normalize_bitable_value default_interpreter dumps_raises
             (PList [PDict [(''text'', PStr ''a'')], PBytes (Utf8 ''b''), PInt 7,
                     PFloat (FloatOther ''inf'')])
           = Inr s)"
proof -
  let ?v = "PList [PDict [(''text'', PStr ''a'')], PBytes (Utf8 ''b''), PInt 7,
                   PFloat (FloatOther ''inf'')]"
  have h1: "decodable ?v"
    by simp
  have h2: "digits_within (int_max_str_digits default_interpreter) ?v"
    by (simp add: default_interpreter_def str_nat.simps)
  have h3: "3 * depth ?v \<le> frames default_interpreter"
    by (simp add: default_interpreter_def)
  from normalize_total_on_decodable [OF h1 h2 h3, of dumps_raises] h1 h2 h3 show ?thesis
    by blast
qed


section \<open>Properties of the search filter\<close>

lemma load_task_fields_default:
  "load_task_fields_from_env no_env ''App'' = Some ''App''"
  "load_task_fields_from_env no_env ''Scene'' = Some ''Scene''"
  "load_task_fields_from_env no_env ''Status'' = Some ''Status''"
  "load_task_fields_from_env no_env ''Date'' = Some ''Date''"
  by (simp_all add: load_task_fields_from_env_def TASK_FIELD_ENV_MAP_def env_def no_env_def
      strip_def)

text \<open>
  For contrast with C10: with any other preset that is not blank, the Date column is
  filtered on.
\<close>

lemma build_filter_today:
  "build_filter (load_task_fields_from_env no_env) [] [] [] ''Today''
   = Some \<lparr>conjunction = ''and'',
            conditions = [\<lparr>field_name = ''Date'', operator = ''is'', value_list = [''Today'']\<rparr>]\<rparr>"
  by (simp add: build_filter_def add_def load_task_fields_default strip_def py_isspace_def)

text \<open>
  C10. When the date preset is the literal \<^verbatim>\<open>Any\<close> or is empty, the filter is built from
  the App, Scene and Status terms alone: the Date term is never added, whatever column the
  Date field is mapped to. In particular, with app, scene and status empty the result is
  \<^verbatim>\<open>None\<close>, the unfiltered scan.
\<close>

theorem build_filter_any_has_no_date:
  "date_preset = ''Any'' \<or> date_preset = [] \<Longrightarrow>
     build_filter fmap app scene status date_preset
       = (let conds = add fmap (add fmap (add fmap [] ''App'' app) ''Scene'' scene)
                        ''Status'' status
          in if conds = [] then None else Some \<lparr>conjunction = ''and'', conditions = conds\<rparr>)
     \<and> build_filter fmap [] [] [] date_preset = None"
proof -
  assume dp: "date_preset = ''Any'' \<or> date_preset = []"
  have blank: "add fmap conds key [] = conds" for conds key
    by (simp add: add_def strip_def)
  from dp have skip: "\<not> (date_preset \<noteq> [] \<and> date_preset \<noteq> ''Any'')"
    by blast
  show ?thesis
    unfolding build_filter_def Let_def
    by (simp only: skip if_False blank) simp
qed

theorem build_filter_any_has_no_date_witness:
  "(''Any'' = ''Any'' \<or> ''Any'' = [])
   \<and> build_filter (load_task_fields_from_env no_env) ''com.smile.gifmaker'' [] ''pending'' ''Any''
       = Some \<lparr>conjunction = ''and'',
                conditions = [\<lparr>field_name = ''App'', operator = ''is'',
                                value_list = [''com.smile.gifmaker'']\<rparr>,
                              \<lparr>field_name = ''Status'', operator = ''is'',
                                value_list = [''pending'']\<rparr>]\<rparr>
   \<and> build_filter (load_task_fields_from_env no_env) [] [] [] ''Any'' = None"
  using build_filter_any_has_no_date
    [of "''Any''" "load_task_fields_from_env no_env" "''com.smile.gifmaker''" "[]" "''pending''"]
  by (simp add: add_def load_task_fields_default strip_def py_isspace_def)


section \<open>Properties of the paginated fetcher\<close>

lemma fetch_loop_last_reply:
  "fetch_loop base_url token ref page_size limit ignore_view view filter_object max_pages
      items page_token n script = Some (Inr (rows, cursor, m))
   \<Longrightarrow> \<exists>k req resp. k < length script \<and> (script ! k) req = Inr resp \<and> code resp = 0
         \<and> cursor = strip (data_page_token resp) \<and> m = n + int k + 1"
proof (induction script arbitrary: items page_token n)
  case Nil
  then show ?case by simp
next
  case (Cons reply script)
  let ?req = "search_request_of base_url token ref page_size page_token ignore_view view
                filter_object"
  from Cons.prems obtain resp where resp: "reply ?req = Inr resp" "code resp = 0"
    by (auto split: sum.splits if_splits)
  let ?items = "items @ data_items resp"
  let ?cursor = "strip (data_page_token resp)"
  show ?case
  proof (cases "(limit > 0 \<and> int (length ?items) \<ge> limit) \<or> (max_pages > 0 \<and> n + 1 \<ge> max_pages)
                \<or> \<not> data_has_more resp \<or> ?cursor = []")
    case True
    with Cons.prems resp have "cursor = ?cursor \<and> m = n + 1"
      by (auto simp: Let_def split: if_splits)
    with resp show ?thesis
      by (intro exI [of _ 0] exI [of _ ?req] exI [of _ resp]) simp
  next
    case False
    with Cons.prems resp have "fetch_loop base_url token ref page_size limit ignore_view view
           filter_object max_pages ?items ?cursor (n + 1) script = Some (Inr (rows, cursor, m))"
      by (auto simp: Let_def split: if_splits)
    from Cons.IH [OF this] obtain k req r where
      "k < length script" "(script ! k) req = Inr r" "code r = 0"
      "cursor = strip (data_page_token r)" "m = n + 1 + int k + 1"
      by blast
    then show ?thesis
      by (intro exI [of _ "Suc k"] exI [of _ req] exI [of _ r]) simp
  qed
qed

lemma fetch_loop_within_limit:
  "0 < limit \<Longrightarrow> int (length items) \<le> limit
   \<Longrightarrow> fetch_loop base_url token ref page_size limit ignore_view view filter_object max_pages
         items page_token n script = Some (Inr (rows, cursor, m))
   \<Longrightarrow> int (length rows) \<le> limit"
proof (induction script arbitrary: items page_token n)
  case Nil
  then show ?case by simp
next
  case (Cons reply script)
  let ?req = "search_request_of base_url token ref page_size page_token ignore_view view
                filter_object"
  from Cons.prems obtain resp where resp: "reply ?req = Inr resp" "code resp = 0"
    by (auto split: sum.splits if_splits)
  let ?items = "items @ data_items resp"
  let ?cursor = "strip (data_page_token resp)"
  show ?case
  proof (cases "int (length ?items) \<ge> limit")
    case True
    with Cons.prems resp have "rows = take (nat limit) ?items"
      by (simp add: Let_def)
    then show ?thesis using Cons.prems(1) by simp
  next
    case False
    show ?thesis
    proof (cases "(max_pages > 0 \<and> n + 1 \<ge> max_pages) \<or> \<not> data_has_more resp \<or> ?cursor = []")
      case True
      with Cons.prems resp False have "rows = ?items"
        by (auto simp: Let_def split: if_splits)
      with False show ?thesis by simp
    next
      case stay: False
      with Cons.prems resp False have "fetch_loop base_url token ref page_size limit ignore_view
          view filter_object max_pages ?items ?cursor (n + 1) script = Some (Inr (rows, cursor, m))"
        by (auto simp: Let_def split: if_splits)
      from Cons.IH [OF Cons.prems(1) _ this] False show ?thesis by simp
    qed
  qed
qed

text \<open>
  C4. Whenever \<^verbatim>\<open>fetch_records\<close> returns, on any script of replies, the \<^verbatim>\<open>has_more\<close> of its
  \<^verbatim>\<open>PageInfo\<close> says exactly that the returned cursor is not empty, and that cursor is the
  stripped page token of the last reply the loop read (reply number \<^verbatim>\<open>pages\<close>); the
  \<^verbatim>\<open>has_more\<close> flag of that reply has no part in it.
\<close>

theorem fetch_records_has_more_is_cursor:
  assumes "fetch_records base_url token ref page_size limit ignore_view view filter_object
             max_pages script = Some (Inr (rows, info))"
  shows "has_more info = (next_page_token info \<noteq> [])
     \<and> (\<exists>k req resp. k < length script \<and> (script ! k) req = Inr resp
            \<and> pages info = int k + 1
            \<and> next_page_token info = strip (data_page_token resp)
            \<and> has_more info = (strip (data_page_token resp) \<noteq> []))"
proof -
  let ?size = "if limit > 0 \<and> limit < clamp_page_size page_size then limit
               else clamp_page_size page_size"
  from assms obtain cursor m where
    loop: "fetch_loop base_url token ref ?size limit ignore_view view filter_object max_pages
             [] [] 0 script = Some (Inr (rows, cursor, m))"
    and info: "info = \<lparr>has_more = (cursor \<noteq> []), next_page_token = cursor, pages = m\<rparr>"
    by (auto simp: fetch_records_def Let_def split: option.splits sum.splits)
  from fetch_loop_last_reply [OF loop] obtain k req resp where
    "k < length script" "(script ! k) req = Inr resp"
    "cursor = strip (data_page_token resp)" "m = int k + 1"
    by auto
  with info show ?thesis
    by (intro conjI exI [of _ k] exI [of _ req] exI [of _ resp]) simp_all
qed

theorem fetch_records_has_more_is_cursor_witness:
  "fetch_records ''https://open.feishu.cn'' ''t'' stub_ref 200 0 True [] None 0
       [stale_cursor_store]
     = Some (Inr ([stub_row ''r1''], \<lparr>has_more = True, next_page_token = ''p2'', pages = 1\<rparr>))
   \<and> (\<exists>k req resp. k < length [stale_cursor_store] \<and> ([stale_cursor_store] ! k) req = Inr resp
          \<and> (1::int) = int k + 1 \<and> ''p2'' = strip (data_page_token resp)
          \<and> True = (strip (data_page_token resp) \<noteq> []))"
proof -
  have run: "fetch_records ''https://open.feishu.cn'' ''t'' stub_ref 200 0 True [] None 0
       [stale_cursor_store]
     = Some (Inr ([stub_row ''r1''], \<lparr>has_more = True, next_page_token = ''p2'', pages = 1\<rparr>))"
    by (simp add: fetch_records_def clamp_page_size_def DEFAULT_PAGE_SIZE_def MAX_PAGE_SIZE_def
        stale_cursor_store_def strip_def py_isspace_def)
  from fetch_records_has_more_is_cursor [OF run] run show ?thesis
    by simp
qed
lemma stub_store_run:
  "fetch_records ''https://open.feishu.cn'' ''t'' stub_ref 200 0 True [] None 0
       [stub_store, stub_store, stub_store]
     = Some (Inr (map stub_row [''r1'', ''r2'', ''r3'', ''r4'', ''r5'', ''r6''],
                  \<lparr>has_more = False, next_page_token = [], pages = 3\<rparr>))"
  by (simp add: fetch_records_def clamp_page_size_def DEFAULT_PAGE_SIZE_def MAX_PAGE_SIZE_def
      search_request_of_def stub_store_def strip_def py_isspace_def)

lemma stub_store_run_limit:
  "fetch_records ''https://open.feishu.cn'' ''t'' stub_ref 200 4 True [] None 0
       [stub_store, stub_store, stub_store]
     = Some (Inr (map stub_row [''r1'', ''r2'', ''r3'', ''r4''],
                  \<lparr>has_more = True, next_page_token = ''p3'', pages = 2\<rparr>))"
  by (simp add: fetch_records_def clamp_page_size_def DEFAULT_PAGE_SIZE_def MAX_PAGE_SIZE_def
      search_request_of_def stub_store_def strip_def py_isspace_def)

text \<open>
  A fetch with a positive limit that returns never returns more rows than the limit.
\<close>

lemma fetch_records_within_limit:
  assumes "0 < limit"
    and "fetch_records base_url token ref page_size limit ignore_view view filter_object
            max_pages script = Some (Inr (rows, info))"
  shows "int (length rows) \<le> limit"
proof -
  let ?size = "if limit > 0 \<and> limit < clamp_page_size page_size then limit
               else clamp_page_size page_size"
  from assms(2) obtain cursor m where
    "fetch_loop base_url token ref ?size limit ignore_view view filter_object max_pages
             [] [] 0 script = Some (Inr (rows, cursor, m))"
    by (auto simp: fetch_records_def Let_def split: option.splits sum.splits)
  from fetch_loop_within_limit [OF assms(1) _ this] assms(1) show ?thesis
    by simp
qed

text \<open>
  The loop under a positive limit, on any script and from any state: when the replies up
  to reply \<open>k\<close> are accepted (code 0), the iterations before \<open>k\<close> leave the accumulated rows
  below the limit and meet no other stop condition, and reply \<open>k\<close> brings the accumulated rows
  to the limit or beyond, the loop ends at reply \<open>k\<close> with the first \<open>limit\<close> rows.
\<close>

lemma fetch_loop_stops_at_limit:
  assumes "0 < limit"
    and "k < length (replies_read base_url token ref page_size ignore_view view filter_object
                       page_token script)"
    and "\<forall>i\<le>k. code (replies_read base_url token ref page_size ignore_view view filter_object
                         page_token script ! i) = 0"
    and "\<forall>i<k. int (length (items @ concat (map data_items (take (Suc i)
                   (replies_read base_url token ref page_size ignore_view view filter_object
                      page_token script))))) < limit
               \<and> (max_pages \<le> 0 \<or> n + int i + 1 < max_pages)
               \<and> data_has_more (replies_read base_url token ref page_size ignore_view view
                                   filter_object page_token script ! i)
               \<and> strip (data_page_token (replies_read base_url token ref page_size ignore_view
                                            view filter_object page_token script ! i)) \<noteq> []"
    and "limit \<le> int (length (items @ concat (map data_items (take (Suc k)
                   (replies_read base_url token ref page_size ignore_view view filter_object
                      page_token script)))))"
  shows "fetch_loop base_url token ref page_size limit ignore_view view filter_object max_pages
           items page_token n script
         = Some (Inr (take (nat limit) (items @ concat (map data_items (take (Suc k)
                         (replies_read base_url token ref page_size ignore_view view
                            filter_object page_token script)))),
                      strip (data_page_token (replies_read base_url token ref page_size
                         ignore_view view filter_object page_token script ! k)),
                      n + int k + 1))"
  using assms
proof (induction k arbitrary: items page_token n script)
  case 0
  then obtain reply rest where script: "script = reply # rest"
    by (cases script) auto
  let ?req = "search_request_of base_url token ref page_size page_token ignore_view view
                filter_object"
  from 0(2) script obtain resp where resp: "reply ?req = Inr resp"
    by (cases "reply ?req") auto
  with 0 script show ?case
    by (simp add: Let_def)
next
  case (Suc k)
  then obtain reply rest where script: "script = reply # rest"
    by (cases script) auto
  let ?req = "search_request_of base_url token ref page_size page_token ignore_view view
                filter_object"
  from Suc.prems(2) script obtain resp where resp: "reply ?req = Inr resp"
    by (cases "reply ?req") auto
  let ?cursor = "strip (data_page_token resp)"
  let ?rest = "replies_read base_url token ref page_size ignore_view view filter_object
                 ?cursor rest"
  have all: "replies_read base_url token ref page_size ignore_view view filter_object
               page_token script = resp # ?rest"
    using script resp by simp
  from Suc.prems(3) all have code0: "code resp = 0"
    by force
  from Suc.prems(4) all have first: "int (length (items @ data_items resp)) < limit"
    "max_pages \<le> 0 \<or> n + 1 < max_pages" "data_has_more resp" "?cursor \<noteq> []"
    by force+
  have step: "fetch_loop base_url token ref page_size limit ignore_view view filter_object
                max_pages items page_token n script
     = fetch_loop base_url token ref page_size limit ignore_view view filter_object
                max_pages (items @ data_items resp) ?cursor (n + 1) rest"
    using script resp code0 first by (auto simp: Let_def)
  have "fetch_loop base_url token ref page_size limit ignore_view view filter_object
                max_pages (items @ data_items resp) ?cursor (n + 1) rest
     = Some (Inr (take (nat limit) ((items @ data_items resp)
                      @ concat (map data_items (take (Suc k) ?rest))),
                  strip (data_page_token (?rest ! k)), n + 1 + int k + 1))"
  proof (rule Suc.IH)
    show "0 < limit" by fact
    show "k < length ?rest"
      using Suc.prems(2) all by simp
    show "\<forall>i\<le>k. code (?rest ! i) = 0"
      using Suc.prems(3) all by auto
    show "\<forall>i<k. int (length ((items @ data_items resp)
                     @ concat (map data_items (take (Suc i) ?rest)))) < limit
               \<and> (max_pages \<le> 0 \<or> n + 1 + int i + 1 < max_pages)
               \<and> data_has_more (?rest ! i)
               \<and> strip (data_page_token (?rest ! i)) \<noteq> []"
    proof (intro allI impI)
      fix i assume "i < k"
      then have "Suc i < Suc k" by simp
      with Suc.prems(4) [rule_format, OF this] all
      show "int (length ((items @ data_items resp)
                     @ concat (map data_items (take (Suc i) ?rest)))) < limit
               \<and> (max_pages \<le> 0 \<or> n + 1 + int i + 1 < max_pages)
               \<and> data_has_more (?rest ! i)
               \<and> strip (data_page_token (?rest ! i)) \<noteq> []"
        by (simp add: add.commute add.left_commute)
    qed
    show "limit \<le> int (length ((items @ data_items resp)
                     @ concat (map data_items (take (Suc k) ?rest))))"
      using Suc.prems(5) all by simp
  qed
  with step all show ?case
    by simp
qed

text \<open>
  C6. Let the limit \<open>L\<close> be positive and let \<open>resps\<close> be the replies that the store gives to
  the successive requests of \<^verbatim>\<open>fetch_records\<close> (page size \<open>min L (clamp_page_size page_size)\<close>,
  each request with the cursor of the reply before it). If reply \<open>k\<close> is the first to bring
  the accumulated rows to \<open>L\<close> or more, the replies up to it were accepted and no other stop
  condition ended the loop before it, then \<^verbatim>\<open>fetch_records\<close> returns, having read exactly
  the replies up to \<open>k\<close> (\<^verbatim>\<open>pages\<close> is \<open>k + 1\<close>, the cursor is that of reply \<open>k\<close>), and the rows
  it returns are the first \<open>L\<close> of the accumulated rows: exactly \<open>L\<close> rows, whatever the
  size of \<open>L\<close> and whatever the script holds after reply \<open>k\<close>. Against the store of three pages
  of two rows, limit 0 and max_pages 0 give all six rows and \<^verbatim>\<open>pages == 3\<close>, and limit 4 gives
  exactly the first four rows.
\<close>

theorem fetch_records_limit:
  assumes "0 < limit"
    and "resps = replies_read base_url token ref (min limit (clamp_page_size page_size))
                   ignore_view view filter_object [] script"
    and "k < length resps"
    and "\<forall>i\<le>k. code (resps ! i) = 0"
    and "\<forall>i<k. int (length (concat (map data_items (take (Suc i) resps)))) < limit
               \<and> (max_pages \<le> 0 \<or> int i + 1 < max_pages)
               \<and> data_has_more (resps ! i)
               \<and> strip (data_page_token (resps ! i)) \<noteq> []"
    and "limit \<le> int (length (concat (map data_items (take (Suc k) resps))))"
  shows "fetch_records base_url token ref page_size limit ignore_view view filter_object
             max_pages script
           = Some (Inr (take (nat limit) (concat (map data_items (take (Suc k) resps))),
                        \<lparr>has_more = (strip (data_page_token (resps ! k)) \<noteq> []),
                         next_page_token = strip (data_page_token (resps ! k)),
                         pages = int k + 1\<rparr>))
     \<and> int (length (take (nat limit) (concat (map data_items (take (Suc k) resps))))) = limit
     \<and> fetch_records ''https://open.feishu.cn'' ''t'' stub_ref 200 0 True [] None 0
          [stub_store, stub_store, stub_store]
        = Some (Inr (map stub_row [''r1'', ''r2'', ''r3'', ''r4'', ''r5'', ''r6''],
                     \<lparr>has_more = False, next_page_token = [], pages = 3\<rparr>))
     \<and> fetch_records ''https://open.feishu.cn'' ''t'' stub_ref 200 4 True [] None 0
          [stub_store, stub_store, stub_store]
        = Some (Inr (map stub_row [''r1'', ''r2'', ''r3'', ''r4''],
                     \<lparr>has_more = True, next_page_token = ''p3'', pages = 2\<rparr>))"
proof (intro conjI)
  let ?size = "if limit > 0 \<and> limit < clamp_page_size page_size then limit
               else clamp_page_size page_size"
  from assms(1) have size: "?size = min limit (clamp_page_size page_size)"
    by (simp add: min_def)
  have "fetch_loop base_url token ref (min limit (clamp_page_size page_size)) limit ignore_view
           view filter_object max_pages [] [] 0 script
         = Some (Inr (take (nat limit) ([] @ concat (map data_items (take (Suc k)
                         (replies_read base_url token ref (min limit (clamp_page_size page_size))
                            ignore_view view filter_object [] script)))),
                      strip (data_page_token (replies_read base_url token ref
                         (min limit (clamp_page_size page_size))
                         ignore_view view filter_object [] script ! k)),
                      0 + int k + 1))"
    using assms by (intro fetch_loop_stops_at_limit) simp_all
  with assms(2) size
  show "fetch_records base_url token ref page_size limit ignore_view view filter_object
             max_pages script
           = Some (Inr (take (nat limit) (concat (map data_items (take (Suc k) resps))),
                        \<lparr>has_more = (strip (data_page_token (resps ! k)) \<noteq> []),
                         next_page_token = strip (data_page_token (resps ! k)),
                         pages = int k + 1\<rparr>))"
    by (simp add: fetch_records_def Let_def)
next
  from assms(1,6) have "nat limit \<le> length (concat (map data_items (take (Suc k) resps)))"
    by linarith
  then have "length (take (nat limit) (concat (map data_items (take (Suc k) resps)))) = nat limit"
    by (simp only: length_take min_absorb2)
  then have "int (length (take (nat limit) (concat (map data_items (take (Suc k) resps)))))
      = int (nat limit)"
    by (simp only:)
  also from assms(1) have "int (nat limit) = limit"
    by simp
  finally show "int (length (take (nat limit) (concat (map data_items (take (Suc k) resps)))))
      = limit" .
next
  show "fetch_records ''https://open.feishu.cn'' ''t'' stub_ref 200 0 True [] None 0
        [stub_store, stub_store, stub_store]
      = Some (Inr (map stub_row [''r1'', ''r2'', ''r3'', ''r4'', ''r5'', ''r6''],
                   \<lparr>has_more = False, next_page_token = [], pages = 3\<rparr>))"
    by (rule stub_store_run)
next
  show "fetch_records ''https://open.feishu.cn'' ''t'' stub_ref 200 4 True [] None 0
          [stub_store, stub_store, stub_store]
        = Some (Inr (map stub_row [''r1'', ''r2'', ''r3'', ''r4''],
                     \<lparr>has_more = True, next_page_token = ''p3'', pages = 2\<rparr>))"
    by (rule stub_store_run_limit)
qed

theorem fetch_records_limit_witness:
  "0 < (3::int)
   \<and> replies_read ''https://open.feishu.cn'' ''t'' stub_ref (min 3 (clamp_page_size 200)) True []
        None [] [stub_store, stub_store, stub_store]
       = [\<lparr>code = 0, msg = ''success'', data_items = [stub_row ''r1'', stub_row ''r2''],
            data_has_more = True, data_page_token = ''p2''\<rparr>,
          \<lparr>code = 0, msg = ''success'', data_items = [stub_row ''r3'', stub_row ''r4''],
            data_has_more = True, data_page_token = ''p3''\<rparr>,
          \<lparr>code = 0, msg = ''success'', data_items = [stub_row ''r5'', stub_row ''r6''],
            data_has_more = False, data_page_token = []\<rparr>]
   \<and> int (length [stub_row ''r1'', stub_row ''r2'']) < 3
   \<and> strip ''p2'' \<noteq> []
   \<and> 3 \<le> int (length ([stub_row ''r1'', stub_row ''r2''] @ [stub_row ''r3'', stub_row ''r4'']))
   \<and> fetch_records ''https://open.feishu.cn'' ''t'' stub_ref 200 3 True [] None 0
        [stub_store, stub_store, stub_store]
       = Some (Inr ([stub_row ''r1'', stub_row ''r2'', stub_row ''r3''],
                    \<lparr>has_more = True, next_page_token = ''p3'', pages = 2\<rparr>))
   \<and> int (length [stub_row ''r1'', stub_row ''r2'', stub_row ''r3'']) = 3"
proof -
  let ?p1 = "\<lparr>code = 0, msg = ''success'', data_items = [stub_row ''r1'', stub_row ''r2''],
            data_has_more = True, data_page_token = ''p2''\<rparr>"
  let ?p2 = "\<lparr>code = 0, msg = ''success'', data_items = [stub_row ''r3'', stub_row ''r4''],
            data_has_more = True, data_page_token = ''p3''\<rparr>"
  let ?p3 = "\<lparr>code = 0, msg = ''success'', data_items = [stub_row ''r5'', stub_row ''r6''],
            data_has_more = False, data_page_token = []\<rparr>"
  have p2: "strip ''p2'' = ''p2''" and p3: "strip ''p3'' = ''p3''"
    by (simp_all add: strip_def py_isspace_def)
  have resps: "[?p1, ?p2, ?p3]
      = replies_read ''https://open.feishu.cn'' ''t'' stub_ref (min 3 (clamp_page_size 200)) True
          [] None [] [stub_store, stub_store, stub_store]"
    by (simp add: search_request_of_def stub_store_def p2 p3)
  have k: "1 < length [?p1, ?p2, ?p3]"
    by simp
  have codes: "\<forall>i\<le>1. code ([?p1, ?p2, ?p3] ! i) = 0"
    by (simp add: le_Suc_eq)
  have before: "\<forall>i<1. int (length (concat (map data_items (take (Suc i) [?p1, ?p2, ?p3])))) < 3
               \<and> ((0::int) \<le> 0 \<or> int i + 1 < 0)
               \<and> data_has_more ([?p1, ?p2, ?p3] ! i)
               \<and> strip (data_page_token ([?p1, ?p2, ?p3] ! i)) \<noteq> []"
    by (simp add: p2)
  have reach: "3 \<le> int (length (concat (map data_items (take (Suc 1) [?p1, ?p2, ?p3]))))"
    by simp
  from fetch_records_limit [where limit = 3 and page_size = 200 and max_pages = 0 and k = 1,
       OF _ resps k codes before reach]
  have run: "fetch_records ''https://open.feishu.cn'' ''t'' stub_ref 200 3 True [] None 0
        [stub_store, stub_store, stub_store]
       = Some (Inr ([stub_row ''r1'', stub_row ''r2'', stub_row ''r3''],
                    \<lparr>has_more = True, next_page_token = ''p3'', pages = 2\<rparr>))"
    by (simp add: p3)
  show ?thesis
    by (intro conjI resps [symmetric] run) (simp_all add: p2)
qed


section \<open>Properties of the task decoder\<close>

lemma normalize_scalar [simp]:
  "normalize_bitable_value ip d PNone = Inr []"
  "normalize_bitable_value ip d (PStr s) = Inr (strip s)"
  "normalize_bitable_value ip d (PInt i) = str_of_int ip (PInt i)"
  by (simp_all add: normalize_bitable_value.simps)

lemma strip_Nil [simp]: "strip [] = []"
  by (simp add: strip_def)

lemma load_task_fields_default_all:
  "name \<in> snd ` set TASK_FIELD_ENV_MAP \<Longrightarrow> load_task_fields_from_env no_env name = Some name"
  by (auto simp: load_task_fields_from_env_def TASK_FIELD_ENV_MAP_def env_def no_env_def)

lemma sequence_Inr_iff: "sequence rs = Inr ys \<longleftrightarrow> rs = map Inr ys"
proof (induction rs arbitrary: ys)
  case Nil
  then show ?case by auto
next
  case (Cons r rs)
  show ?case
  proof (cases r)
    case (Inl e)
    then show ?thesis by (cases ys) auto
  next
    case (Inr y)
    show ?thesis
    proof (cases ys)
      case Nil
      with Inr show ?thesis by (simp split: sum.splits)
    next
      case (Cons z zs)
      with Inr Cons.IH [of zs] show ?thesis by (auto split: sum.splits)
    qed
  qed
qed

text \<open>
  When it raises nothing, \<^verbatim>\<open>decode_task\<close> returns a task exactly when the TaskID cell
  coerces to an integer other than 0 and one of the six payload fields is not empty.
\<close>

lemma decode_task_returns:
  assumes "decode_task pf ip d flds mapping = Inr r"
  shows "(\<exists>task. r = Some task) \<longleftrightarrow>
     (\<exists>col tid. mapping ''TaskID'' = Some col \<and> field_int pf ip d flds col = Inr tid \<and> tid \<noteq> 0)
     \<and> (\<exists>name \<in> set [''Params'', ''ItemID'', ''BookID'', ''URL'', ''UserID'', ''UserName''].
           \<exists>s. get ip d flds mapping name = Inr s \<and> s \<noteq> [])"
proof (cases "flds = []")
  case True
  with assms have "r = None"
    by (simp add: decode_task_def)
  moreover from True have "field_int pf ip d flds col = Inr 0" for col
    by (simp add: field_int_def field_string_def)
  ultimately show ?thesis by auto
next
  case False
  with assms obtain col tid where col: "mapping ''TaskID'' = Some col"
    and tid: "field_int pf ip d flds col = Inr tid"
    by (auto simp: decode_task_def subscript_def split: option.splits sum.splits)
  show ?thesis
  proof (cases "tid = 0")
    case True
    with assms False col tid show ?thesis
      by (auto simp: decode_task_def subscript_def)
  next
    case nz: False
    with assms False col tid obtain vals where
      vals: "sequence (map (\<lambda>(key, name). get ip d flds mapping name) TASK_KEYS) = Inr vals"
      by (auto simp: decode_task_def subscript_def split: sum.splits)
    then obtain v1 v2 v3 v4 v5 v6 v7 v8 v9 v10 v11 v12 v13 v14 v15 v16 v17 v18 v19 v20 v21 v22
        v23 v24 where
      list: "vals = [v1, v2, v3, v4, v5, v6, v7, v8, v9, v10, v11, v12, v13, v14, v15, v16, v17,
                     v18, v19, v20, v21, v22, v23, v24]"
      and gets: "get ip d flds mapping ''Params'' = Inr v5" "get ip d flds mapping ''ItemID'' = Inr v6"
        "get ip d flds mapping ''BookID'' = Inr v7" "get ip d flds mapping ''URL'' = Inr v8"
        "get ip d flds mapping ''UserID'' = Inr v9" "get ip d flds mapping ''UserName'' = Inr v10"
      unfolding sequence_Inr_iff TASK_KEYS_def
      by (auto simp: Cons_eq_map_conv)
    from assms False col tid nz vals
    have "(\<exists>task. r = Some task) \<longleftrightarrow>
            list_ex (\<lambda>key. py_bool (dict_get ((''task_id'', PInt tid)
                       # zip (map fst TASK_KEYS) (map PStr vals)) key)) PAYLOAD_KEYS"
      by (auto simp: decode_task_def subscript_def Let_def split: if_splits)
    also have "\<dots> \<longleftrightarrow> (v5 \<noteq> [] \<or> v6 \<noteq> [] \<or> v7 \<noteq> [] \<or> v8 \<noteq> [] \<or> v9 \<noteq> [] \<or> v10 \<noteq> [])"
      unfolding list by (simp add: TASK_KEYS_def PAYLOAD_KEYS_def dict_get_def)
    also have "\<dots> \<longleftrightarrow> (\<exists>name \<in> set [''Params'', ''ItemID'', ''BookID'', ''URL'', ''UserID'',
                                      ''UserName''].
                          \<exists>s. get ip d flds mapping name = Inr s \<and> s \<noteq> [])"
      using gets by simp
    finally show ?thesis
      using col tid nz by simp
  qed
qed

text \<open>
  The three rows of the spec's examples, decoded with the default field names: an id of
  0 gives none, an id of 7 with only a URL gives a task, an id of 7 alone gives none.
\<close>

lemma decode_task_examples:
  "decode_task float_table default_interpreter dumps_raises [(''TaskID'', PInt 0), (''URL'', PStr ''https://x'')]
     (load_task_fields_from_env no_env) = Inr None"
  "decode_task float_table default_interpreter dumps_raises [(''TaskID'', PInt 7), (''URL'', PStr ''https://x'')]
     (load_task_fields_from_env no_env)
   = Inr (Some
       [(''task_id'', PInt 7), (''biz_task_id'', PStr []),
        (''parent_task_id'', PStr []), (''app'', PStr []),
        (''scene'', PStr []), (''params'', PStr []), (''item_id'', PStr []),
        (''book_id'', PStr []), (''url'', PStr ''https://x''),
        (''user_id'', PStr []), (''user_name'', PStr []),
        (''date'', PStr []), (''status'', PStr []), (''extra'', PStr []),
        (''logs'', PStr []), (''last_screenshot'', PStr []),
        (''group_id'', PStr []), (''device_serial'', PStr []),
        (''dispatched_device'', PStr []), (''dispatched_at'', PStr []),
        (''start_at'', PStr []), (''end_at'', PStr []),
        (''elapsed_seconds'', PStr []), (''items_collected'', PStr []),
        (''retry_count'', PStr [])])"
  "decode_task float_table default_interpreter dumps_raises [(''TaskID'', PInt 7)]
     (load_task_fields_from_env no_env) = Inr None"
  by code_simp+

text \<open>
  C3. The spec has the decoder return none whenever the TaskID cell does not coerce to a
  non-zero integer. \<^verbatim>\<open>field_int\<close> turns a text that \<^verbatim>\<open>float\<close> rejects, and a NaN, into 0
  by catching \<^verbatim>\<open>ValueError\<close>; but on a cell whose text reads as an infinite float
  (\<^verbatim>\<open>inf\<close>, \<^verbatim>\<open>Infinity\<close>, \<^verbatim>\<open>1e999\<close>) \<^verbatim>\<open>int\<close> raises \<^verbatim>\<open>OverflowError\<close>, which is not
  caught, and \<^verbatim>\<open>decode_task\<close> raises instead of returning none.
\<close>

theorem decode_task_raises_on_infinite_id:
  assumes "flds \<noteq> []" and "mapping ''TaskID'' = Some col"
    and "field_string ip d flds col = Inr raw" and "raw \<noteq> []" and "pf raw = Some Infinite"
  shows "decode_task pf ip d flds mapping = Inl OverflowError"
  using assms by (simp add: decode_task_def subscript_def field_int_def)

theorem decode_task_raises_on_infinite_id_witness:
  "[(''TaskID'', PStr ''inf''), (''URL'', PStr ''https://x'')] \<noteq> []
   \<and> load_task_fields_from_env no_env ''TaskID'' = Some ''TaskID''
   \<and> field_string default_interpreter dumps_raises [(''TaskID'', PStr ''inf''), (''URL'', PStr ''https://x'')]
        ''TaskID'' = Inr ''inf''
   \<and> ''inf'' \<noteq> [] \<and> float_table ''inf'' = Some Infinite
   \<and> decode_task float_table default_interpreter dumps_raises
        [(''TaskID'', PStr ''inf''), (''URL'', PStr ''https://x'')]
        (load_task_fields_from_env no_env) = Inl OverflowError"
proof -
  have col: "load_task_fields_from_env no_env ''TaskID'' = Some ''TaskID''"
    by (simp add: load_task_fields_default_all TASK_FIELD_ENV_MAP_def)
  have raw: "field_string default_interpreter dumps_raises [(''TaskID'', PStr ''inf''), (''URL'', PStr ''https://x'')]
        ''TaskID'' = Inr ''inf''"
    by (simp add: field_string_def bitable_value_to_string_def dict_get_def strip_def
        py_isspace_def)
  have inf: "float_table ''inf'' = Some Infinite"
    by (simp add: float_table_def)
  from decode_task_raises_on_infinite_id
    [where flds = "[(''TaskID'', PStr ''inf''), (''URL'', PStr ''https://x'')]"
       and mapping = "load_task_fields_from_env no_env" and col = "''TaskID''"
       and ip = default_interpreter and d = dumps_raises and raw = "''inf''" and pf = float_table]
    col raw inf
  show ?thesis by simp
qed


section \<open>Properties of the existence probe and of batch creation\<close>

text \<open>
  C9. Whatever the record id: when the row lookup raises an exception that
  \<^verbatim>\<open>except Exception\<close> catches (every transport or decoding failure is one), the probe
  returns \<^verbatim>\<open>False\<close> and raises nothing; when the lookup returns a reply, the probe returns
  the boolean \<^verbatim>\<open>code == 0\<close>; and for a blank id it returns \<^verbatim>\<open>False\<close> without a lookup.
\<close>

theorem record_exists_failure_is_false:
  "(is_Exception e
      \<and> replies s (length (calls s))
            \<lparr>url = table_url base_url ref @ ''/records/'' @ strip rid, bearer = token\<rparr> = Inl e
    \<longrightarrow> fst (record_exists base_url token ref rid s) = Inr False)
   \<and> (replies s (length (calls s))
            \<lparr>url = table_url base_url ref @ ''/records/'' @ strip rid, bearer = token\<rparr> = Inr resp
    \<longrightarrow> fst (record_exists base_url token ref rid s) = Inr (strip rid \<noteq> [] \<and> code resp = 0))
   \<and> (strip rid = [] \<longrightarrow> record_exists base_url token ref rid s = (Inr False, s))"
  by (simp add: record_exists_def request_json_def Let_def)

theorem record_exists_failure_is_false_witness:
  "is_Exception URLError
   \<and> replies unreachable_store (length (calls unreachable_store))
        \<lparr>url = table_url ''https://open.feishu.cn'' stub_ref @ ''/records/'' @ strip '' rec1 '',
         bearer = ''t''\<rparr> = Inl URLError
   \<and> fst (record_exists ''https://open.feishu.cn'' ''t'' stub_ref '' rec1 '' unreachable_store)
       = Inr False"
  using record_exists_failure_is_false
    [where e = URLError and s = unreachable_store
       and base_url = "''https://open.feishu.cn''" and ref = stub_ref and rid = "'' rec1 ''"
       and token = "''t''"]
  by (simp add: unreachable_store_def)

lemma batch_loop_fails_at:
  assumes "idx + k * MAX_BATCH_SIZE < length records"
    and "\<forall>i<k. \<exists>r. replies s (length (calls s) + i)
                 (batch_request base_url token ref
                    (take MAX_BATCH_SIZE (drop (idx + i * MAX_BATCH_SIZE) records))) = Inr r
               \<and> code r = 0"
    and "replies s (length (calls s) + k)
           (batch_request base_url token ref
              (take MAX_BATCH_SIZE (drop (idx + k * MAX_BATCH_SIZE) records))) = Inr resp"
    and "code resp \<noteq> 0"
  shows "batch_loop base_url token ref records idx n s
    = (n + int (k * MAX_BATCH_SIZE),
       Some (RuntimeError (''batch create failed: code='' @ str_int (code resp)
                            @ '' msg='' @ msg resp)),
       s\<lparr>calls := calls s @ map (\<lambda>i. batch_request base_url token ref
                  (take MAX_BATCH_SIZE (drop (idx + i * MAX_BATCH_SIZE) records))) [0..<Suc k]\<rparr>)"
  using assms
proof (induction k arbitrary: idx n s)
  case 0
  then show ?case
    by (subst batch_loop.simps)
       (simp add: batch_create_records_def request_json_def batch_request_def)
next
  case (Suc k)
  let ?req = "\<lambda>i. batch_request base_url token ref
                  (take MAX_BATCH_SIZE (drop (idx + i * MAX_BATCH_SIZE) records))"
  let ?s = "s\<lparr>calls := calls s @ [?req 0]\<rparr>"
  from Suc.prems(2) obtain r where r: "replies s (length (calls s)) (?req 0) = Inr r" "code r = 0"
    by force
  from Suc.prems(1) have full: "length (take MAX_BATCH_SIZE (drop idx records)) = MAX_BATCH_SIZE"
    by simp
  have step: "batch_loop base_url token ref records idx n s
      = batch_loop base_url token ref records (idx + MAX_BATCH_SIZE) (n + int MAX_BATCH_SIZE) ?s"
    using Suc.prems(1) r full
    by (subst batch_loop.simps)
       (simp add: batch_create_records_def request_json_def batch_request_def)
  have shift: "idx + MAX_BATCH_SIZE + i * MAX_BATCH_SIZE = idx + Suc i * MAX_BATCH_SIZE" for i
    by simp
  have "batch_loop base_url token ref records (idx + MAX_BATCH_SIZE) (n + int MAX_BATCH_SIZE) ?s
    = (n + int MAX_BATCH_SIZE + int (k * MAX_BATCH_SIZE),
       Some (RuntimeError (''batch create failed: code='' @ str_int (code resp)
                            @ '' msg='' @ msg resp)),
       ?s\<lparr>calls := calls ?s @ map (\<lambda>i. batch_request base_url token ref
                  (take MAX_BATCH_SIZE (drop (idx + MAX_BATCH_SIZE + i * MAX_BATCH_SIZE) records)))
                  [0..<Suc k]\<rparr>)"
  proof (rule Suc.IH)
    show "idx + MAX_BATCH_SIZE + k * MAX_BATCH_SIZE < length records"
      using Suc.prems(1) by simp
    show "\<forall>i<k. \<exists>r. replies ?s (length (calls ?s) + i)
                 (batch_request base_url token ref
                    (take MAX_BATCH_SIZE (drop (idx + MAX_BATCH_SIZE + i * MAX_BATCH_SIZE) records)))
               = Inr r \<and> code r = 0"
      using Suc.prems(2) by (simp only: shift) (auto simp del: mult_Suc)
    show "replies ?s (length (calls ?s) + k)
           (batch_request base_url token ref
              (take MAX_BATCH_SIZE (drop (idx + MAX_BATCH_SIZE + k * MAX_BATCH_SIZE) records)))
          = Inr resp"
      using Suc.prems(3) by (simp only: shift) (simp del: mult_Suc)
    show "code resp \<noteq> 0" by fact
  qed
  also have "\<dots> = (n + int (Suc k * MAX_BATCH_SIZE),
       Some (RuntimeError (''batch create failed: code='' @ str_int (code resp)
                            @ '' msg='' @ msg resp)),
       s\<lparr>calls := calls s @ map ?req [0..<Suc (Suc k)]\<rparr>)"
    by (simp only: shift map_upt_Suc [of ?req "Suc k"]) simp
  finally show ?case using step by simp
qed

text \<open>
  With 1200 rows and a store that accepts every request, \<^verbatim>\<open>main\<close> makes exactly three batch
  calls, of 500, 500 and 200 rows, and reports 1200 rows created.
\<close>

lemma main_create_all_accepted:
  "main_create base_url token ref (replicate 1200 x) [] 0 accepting_store
   = (Inr (\<lparr>created = 1200, requested = 1200, skipped = 0, failed = 0, errors = []\<rparr>, 0),
      accepting_store
        \<lparr>calls := [batch_request base_url token ref (replicate 500 x),
                   batch_request base_url token ref (replicate 500 x),
                   batch_request base_url token ref (replicate 200 x)]\<rparr>)"
  by (simp add: main_create_def batch_loop.simps batch_create_records_def request_json_def
      batch_request_def accepting_def accepting_store_def MAX_BATCH_SIZE_def Let_def)

text \<open>
  An exception of the transport that is not a \<^verbatim>\<open>RuntimeError\<close> is not caught by \<^verbatim>\<open>main\<close>:
  it ends the run without a report.
\<close>

lemma main_create_other_exception:
  assumes "2 \<le> length records"
    and "replies s (length (calls s)) (batch_request base_url token ref (chunk records 0)) = Inl e"
    and "\<not> is_RuntimeError e"
  shows "fst (main_create base_url token ref records errs skip s) = Inl e"
proof -
  from assms(1) have "length records \<noteq> 1" "records \<noteq> []"
    by auto
  with assms(2,3) show ?thesis
    by (simp add: main_create_def batch_loop.simps [of _ _ _ _ 0] batch_create_records_def
        request_json_def batch_request_def chunk_def)
qed

text \<open>
  C5, as stated (a failure of one chunk is reported in the errors array together with the
  rows created before it), fails for a chunk that fails with an exception that is not a
  \<^verbatim>\<open>RuntimeError\<close>: of 1200 rows, when the call for the second chunk fails in the transport,
  \<^verbatim>\<open>main\<close> ends with that exception after two calls; it prints no report, so neither the 500
  rows created by the first call nor an entry of \<^verbatim>\<open>errors\<close> is reported.
\<close>

theorem main_create_raises_on_transport_failure:
  "main_create ''https://open.feishu.cn'' ''t'' stub_ref (replicate 1200 Map.empty) [] 0
      dropping_store
   = (Inl URLError,
      dropping_store
        \<lparr>calls := [batch_request ''https://open.feishu.cn'' ''t'' stub_ref
                     (replicate 500 Map.empty),
                   batch_request ''https://open.feishu.cn'' ''t'' stub_ref
                     (replicate 500 Map.empty)]\<rparr>)"
  by (simp add: main_create_def batch_loop.simps batch_create_records_def request_json_def
      batch_request_def dropping_second_def dropping_store_def MAX_BATCH_SIZE_def Let_def)

text \<open>
  C5, amended: the failure is that of a chunk which the store rejects. Take two or more rows
  to create, cut into chunks of 500, and let the store accept the batch calls for the chunks
  before chunk \<open>k\<close> and answer the call for chunk \<open>k\<close> with a code other than 0, so that
  \<^verbatim>\<open>batch_create_records\<close> raises its \<^verbatim>\<open>RuntimeError\<close>. Then \<^verbatim>\<open>main\<close> makes the calls for the
  chunks up to \<open>k\<close> and no call after it, appends exactly one entry to \<^verbatim>\<open>errors\<close>, the message
  of that error, reports as \<^verbatim>\<open>created\<close> the rows of the \<open>k\<close> chunks before, which is \<open>500 k\<close>,
  and exits with 1.
\<close>

theorem main_create_fail_fast:
  assumes "2 \<le> length records" and "k * MAX_BATCH_SIZE < length records"
    and "\<forall>i<k. \<exists>r. replies s (length (calls s) + i)
                       (batch_request base_url token ref (chunk records i)) = Inr r
                     \<and> code r = 0"
    and "replies s (length (calls s) + k)
           (batch_request base_url token ref (chunk records k)) = Inr resp"
    and "code resp \<noteq> 0"
  shows "main_create base_url token ref records errs skip s
    = (Inr (\<lparr>created = int (k * MAX_BATCH_SIZE),
              requested = int (length records),
              skipped = skip,
              failed = int (length errs) + 1,
              errors = errs @ [''batch create failed: code='' @ str_int (code resp)
                                 @ '' msg='' @ msg resp]\<rparr>, 1),
       s\<lparr>calls := calls s
            @ map (\<lambda>i. batch_request base_url token ref (chunk records i)) [0..<Suc k]\<rparr>)"
proof -
  have "batch_loop base_url token ref records 0 0 s
    = (0 + int (k * MAX_BATCH_SIZE),
       Some (RuntimeError (''batch create failed: code='' @ str_int (code resp)
                            @ '' msg='' @ msg resp)),
       s\<lparr>calls := calls s @ map (\<lambda>i. batch_request base_url token ref
                  (take MAX_BATCH_SIZE (drop (0 + i * MAX_BATCH_SIZE) records))) [0..<Suc k]\<rparr>)"
    using assms(2-5) by (intro batch_loop_fails_at) (simp_all add: chunk_def)
  with assms(1) show ?thesis
    by (simp add: main_create_def chunk_def)
qed

theorem main_create_fail_fast_witness:
  "2 \<le> length (replicate 1200 (Map.empty :: create_fields))
   \<and> 1 * MAX_BATCH_SIZE < length (replicate 1200 (Map.empty :: create_fields))
   \<and> replies rejecting_store (length (calls rejecting_store) + 0)
         (batch_request ''https://open.feishu.cn'' ''t'' stub_ref
            (chunk (replicate 1200 Map.empty) 0))
       = Inr \<lparr>code = 0, msg = ''success''\<rparr>
   \<and> replies rejecting_store (length (calls rejecting_store) + 1)
         (batch_request ''https://open.feishu.cn'' ''t'' stub_ref
            (chunk (replicate 1200 Map.empty) 1))
       = Inr \<lparr>code = 1254291, msg = ''Write conflict''\<rparr>
   \<and> chunk (replicate 1200 (Map.empty :: create_fields)) 2 = replicate 200 Map.empty
   \<and> main_create ''https://open.feishu.cn'' ''t'' stub_ref (replicate 1200 Map.empty) [] 0
        rejecting_store
       = (Inr (\<lparr>created = 500, requested = 1200, skipped = 0, failed = 1,
                 errors = [''batch create failed: code=1254291 msg=Write conflict'']\<rparr>, 1),
          rejecting_store
            \<lparr>calls := [batch_request ''https://open.feishu.cn'' ''t'' stub_ref
                         (replicate 500 Map.empty),
                       batch_request ''https://open.feishu.cn'' ''t'' stub_ref
                         (replicate 500 Map.empty)]\<rparr>)"
proof -
  let ?records = "replicate 1200 (Map.empty :: create_fields)"
  let ?resp = "\<lparr>code = 1254291, msg = ''Write conflict''\<rparr>"
  have h1: "2 \<le> length ?records"
    by simp
  have h2: "1 * MAX_BATCH_SIZE < length ?records"
    by (simp add: MAX_BATCH_SIZE_def)
  have h3: "\<forall>i<1. \<exists>r. replies rejecting_store (length (calls rejecting_store) + i)
                     (batch_request ''https://open.feishu.cn'' ''t'' stub_ref
                        (chunk ?records i)) = Inr r \<and> code r = 0"
    by (simp add: rejecting_store_def rejecting_second_def)
  have h4: "replies rejecting_store (length (calls rejecting_store) + 1)
         (batch_request ''https://open.feishu.cn'' ''t'' stub_ref (chunk ?records 1))
       = Inr ?resp"
    by (simp add: rejecting_store_def rejecting_second_def)
  have h3': "replies rejecting_store (length (calls rejecting_store) + 0)
         (batch_request ''https://open.feishu.cn'' ''t'' stub_ref (chunk ?records 0))
       = Inr \<lparr>code = 0, msg = ''success''\<rparr>"
    by (simp add: rejecting_store_def rejecting_second_def)
  have h5: "code ?resp \<noteq> 0"
    by simp
  have chunks: "chunk ?records 0 = replicate 500 Map.empty"
    "chunk ?records (Suc 0) = replicate 500 Map.empty"
    "chunk ?records 2 = replicate 200 Map.empty"
    by (simp_all add: chunk_def MAX_BATCH_SIZE_def)
  have code_text: "str_int 1254291 = ''1254291''"
    by (simp add: str_int_def str_nat.simps digit_char_def)
  have up: "[0..<Suc 1] = [0, 1]"
    by (simp add: upt_rec)
  have run: "main_create ''https://open.feishu.cn'' ''t'' stub_ref ?records [] 0 rejecting_store
       = (Inr (\<lparr>created = 500, requested = 1200, skipped = 0, failed = 1,
                 errors = [''batch create failed: code=1254291 msg=Write conflict'']\<rparr>, 1),
          rejecting_store
            \<lparr>calls := [batch_request ''https://open.feishu.cn'' ''t'' stub_ref
                         (replicate 500 Map.empty),
                       batch_request ''https://open.feishu.cn'' ''t'' stub_ref
                         (replicate 500 Map.empty)]\<rparr>)"
    unfolding main_create_fail_fast [OF h1 h2 h3 h4 h5, of "[]" 0] up
    by (simp add: chunks code_text MAX_BATCH_SIZE_def rejecting_store_def)
  show ?thesis
    by (intro conjI h1 h2 h3' h4 chunks(3) run)
qed


section \<open>Properties of the existing-record resolver\<close>




















lemma record_items_returns:
  "\<forall>item \<in> set items. \<exists>t. cell_text cm name item = Inr t
   \<Longrightarrow> \<exists>existing'. record_items cm name existing items = Inr existing'"
  by (induction items arbitrary: existing) auto

lemma resolve_loop_returns:
  assumes "\<forall>n req. \<exists>resp. replies s n req = Inr resp \<and> code resp = 0
             \<and> (\<forall>item \<in> set (data_items resp). \<exists>t. cell_text cm name item = Inr t)"
  shows "\<exists>existing' s'. resolve_loop cm base_url token ref name existing batches s
           = (Inr existing', s')"
  using assms
proof (induction batches arbitrary: existing s)
  case Nil
  then show ?case by simp
next
  case (Cons batch batches)
  show ?case
  proof (cases "build_id_filter name batch")
    case None
    with Cons.IH [OF Cons.prems] show ?thesis by simp
  next
    case (Some f)
    let ?req = "search_once_request cm base_url token ref (Some f) (chunk_page_size cm batch)"
    let ?s = "s\<lparr>calls := calls s @ [?req]\<rparr>"
    from Cons.prems obtain resp where
      resp: "replies s (length (calls s)) ?req = Inr resp" "code resp = 0"
        "\<forall>item \<in> set (data_items resp). \<exists>t. cell_text cm name item = Inr t"
      by blast
    from record_items_returns [OF resp(3)] obtain mid where
      mid: "record_items cm name existing (data_items resp) = Inr mid"
      by blast
    from Cons.prems have "\<forall>n req. \<exists>resp. replies ?s n req = Inr resp \<and> code resp = 0
             \<and> (\<forall>item \<in> set (data_items resp). \<exists>t. cell_text cm name item = Inr t)"
      by simp
    from Cons.IH [OF this, of mid] Some resp mid show ?thesis
      by (simp add: create_tasks_fetch_records_def request_json_def)
  qed
qed

lemma three_rows_store_returns:
  "\<exists>existing s'. resolve_existing_by_field stub_common base_url token ref ''BizTaskID'' vals
                    three_rows_store = (Inr existing, s')"
proof -
  have "\<forall>n req. \<exists>resp. replies three_rows_store n req = Inr resp \<and> code resp = 0
          \<and> (\<forall>item \<in> set (data_items resp).
                \<exists>t. cell_text stub_common ''BizTaskID'' item = Inr t)"
    by (simp add: three_rows_store_def three_rows_def cell_text_def stub_common_def
        bitable_value_to_string_def)
  from resolve_loop_returns [OF this] show ?thesis
    by (simp add: resolve_existing_by_field_def)
qed





section \<open>Properties of the builder of the fields to create\<close>
























end
